theory Spec2Isabelle
  imports Main "HOL-Library.Sublist"
begin

section \<open>Strings\<close>

text \<open>
  A Python \<open>str\<close> is modelled as a HOL \<open>string\<close>; a character stands for a code point
  below 256. The functions of this section are the string operations of the standard
  library that \<open>crawler.py\<close> calls, written out for the arguments the crawler passes.
\<close>

definition NL :: char where
  "NL = CHR 0x0A"

definition DQUOTE :: char where
  "DQUOTE = CHR 0x22"

definition BACKSLASH :: char where
  "BACKSLASH = CHR 0x5C"

text \<open>\<open>str.isspace\<close> on one character, for the code points below 256.\<close>

definition isspace :: "char \<Rightarrow> bool" where
  "isspace c = (of_char c \<in> {9, 10, 11, 12, 13, 28, 29, 30, 31, 32, 133, 160 :: nat})"

text \<open>\<open>str.strip()\<close>: leading and trailing whitespace removed.\<close>

definition strip :: "string \<Rightarrow> string" where
  "strip s = rev (dropWhile isspace (rev (dropWhile isspace s)))"

text \<open>
  \<open>str.replace(old, new)\<close>: every non-overlapping occurrence of \<open>old\<close>, from the left; an
  empty \<open>old\<close> matches before every character and at the end.
\<close>

fun replace_nonempty :: "string \<Rightarrow> string \<Rightarrow> string \<Rightarrow> string" where
  "replace_nonempty old new [] = []"
| "replace_nonempty old new (c # cs) =
     (if old \<noteq> [] \<and> prefix old (c # cs)
      then new @ replace_nonempty old new (drop (length old - 1) cs)
      else c # replace_nonempty old new cs)"

definition str_replace :: "string \<Rightarrow> string \<Rightarrow> string \<Rightarrow> string" where
  "str_replace s old new =
     (if old = [] then new @ concat (map (\<lambda>c. c # new) s)
      else replace_nonempty old new s)"

text \<open>\<open>sep.join(xs)\<close>.\<close>

fun join :: "string \<Rightarrow> string list \<Rightarrow> string" where
  "join sep [] = []"
| "join sep [x] = x"
| "join sep (x # y # ys) = x @ sep @ join sep (y # ys)"

text \<open>
  \<open>re.sub(r'<.*?>', '', s)\<close>. Without \<open>re.DOTALL\<close> the dot matches every character but the
  newline, and the match is lazy: at a \<open><\<close> the match runs to the first \<open>>\<close> that follows,
  and there is none when a newline comes first. \<open>tag_end cs\<close> is what follows that \<open>>\<close>.
\<close>

fun tag_end :: "string \<Rightarrow> string option" where
  "tag_end [] = None"
| "tag_end (c # cs) =
     (if c = CHR ''>'' then Some cs
      else if c = NL then None
      else tag_end cs)"

lemma tag_end_length: "tag_end cs = Some r \<Longrightarrow> length r < length cs"
  by (induction cs) (auto split: if_splits)

function re_sub_tags :: "string \<Rightarrow> string" where
  "re_sub_tags [] = []"
| "re_sub_tags (c # cs) =
     (if c = CHR ''<'' then
        (case tag_end cs of
           Some r \<Rightarrow> re_sub_tags r
         | None \<Rightarrow> c # re_sub_tags cs)
      else c # re_sub_tags cs)"
  by pat_completeness auto
termination
  by (relation "measure length") (auto dest: tag_end_length)

text \<open>
  \<open>re.sub(r'<script.*?</script>', '', s, flags=re.DOTALL)\<close>: at \<open><script\<close> the lazy match
  runs to the end of the first \<open></script>\<close> that follows. \<open>after_first pat s\<close> is what
  follows the first occurrence of \<open>pat\<close> in \<open>s\<close>.
\<close>

fun after_first :: "string \<Rightarrow> string \<Rightarrow> string option" where
  "after_first pat [] = (if pat = [] then Some [] else None)"
| "after_first pat (c # cs) =
     (if prefix pat (c # cs) then Some (drop (length pat) (c # cs))
      else after_first pat cs)"

lemma after_first_length: "after_first pat s = Some r \<Longrightarrow> length r \<le> length s"
  by (induction s) (auto split: if_splits)

function re_sub_script :: "string \<Rightarrow> string" where
  "re_sub_script [] = []"
| "re_sub_script (c # cs) =
     (if prefix ''<script'' (c # cs) then
        (case after_first ''</script>'' (drop 6 cs) of
           Some r \<Rightarrow> re_sub_script r
         | None \<Rightarrow> c # re_sub_script cs)
      else c # re_sub_script cs)"
  by pat_completeness auto
termination
proof (relation "measure length")
  fix c :: char and cs r :: string
  assume "after_first ''</script>'' (drop 6 cs) = Some r"
  then have "length r \<le> length (drop 6 cs)"
    by (rule after_first_length)
  then show "(r, c # cs) \<in> measure length"
    by simp
qed simp_all

section \<open>Filenames and titles\<close>

text \<open>
  \<open>clean_filename\<close> (lines 22-26). The pattern is the raw string \<open>[\/:*?"<>|]\<close>: inside
  the character class \<open>\/\<close> is an escaped slash, so the class holds the eight characters
  below.
\<close>

definition invalid_chars :: "char list" where
  "invalid_chars =
     [CHR ''/'', CHR '':'', CHR ''*'', CHR ''?'', DQUOTE, CHR ''<'', CHR ''>'', CHR ''|'']"

definition clean_filename :: "string \<Rightarrow> string" where
  "clean_filename title = filter (\<lambda>c. c \<notin> set invalid_chars) title"

text \<open>\<open>apply_title_transform\<close> (lines 28-30).\<close>

definition apply_title_transform :: "string \<Rightarrow> string \<Rightarrow> string \<Rightarrow> string" where
  "apply_title_transform title title_search title_replace =
     str_replace title title_search title_replace"

section \<open>The world outside the crawler\<close>

text \<open>
  The libraries the crawler calls (\<open>requests\<close>, \<open>BeautifulSoup\<close>, \<open>urllib.parse\<close>, the
  clock) and the answers of the file system are parameters of the model, collected in the
  record \<open>env\<close>. The files the crawler writes and the requests it sends are the state, the
  record \<open>world\<close>, which every function that has an effect takes and returns. Standard
  output is taken to accept every message, and the messages are not modelled.
\<close>

text \<open>
  The exceptions of \<open>requests\<close> that the source catches: \<open>requests.Timeout\<close>, and every
  other subclass of \<open>requests.RequestException\<close>.
\<close>

datatype request_error = Timeout | RequestException

text \<open>
  The exceptions that the source does not catch: a \<open>KeyError\<close> from reading a missing
  attribute of a tag; the error \<open>soup.select\<close> raises on a selector it cannot parse;
  the error of \<open>BeautifulSoup\<close> on markup its parser rejects; a \<open>ValueError\<close>, which
  \<open>urljoin\<close> raises on a reference it cannot parse and \<open>open\<close> on a name with a null
  character; an \<open>OSError\<close>, which \<open>open\<close> and \<open>os.makedirs\<close> raise when the file system
  refuses (a name that is too long, for one); and the \<open>FileExistsError\<close> of \<open>os.makedirs\<close>.
\<close>

datatype exn =
  KeyError string | SelectorSyntaxError | ParserRejectedMarkup | ValueError | OSError
  | FileExistsError

text \<open>
  A \<open>requests.Response\<close>. \<open>resp_url\<close> is the attribute \<open>url\<close>, the address the response
  came from after redirects. \<open>aborted\<close> tells that the transfer broke; \<open>content\<close> then
  holds the chunks that \<open>iter_content\<close> delivered before it raised.
\<close>

record response =
  status_code :: int
  content :: string
  resp_url :: string
  aborted :: bool

text \<open>
  A tag of a parsed document: its name, its attributes (a dict) and what \<open>get_text()\<close>
  returns for it. A parsed document is the list of its tags in document order.
\<close>

record tag =
  tag_name :: string
  attrs :: "string \<rightharpoonup> string"
  get_text :: string

type_synonym soup = "tag list"

text \<open>
  \<open>network n u stream\<close> is the answer to a GET request for \<open>u\<close> that is sent after \<open>n\<close>
  earlier requests: an exception of \<open>requests\<close> or a response. \<open>html_parser\<close> is
  \<open>BeautifulSoup(content, 'html.parser')\<close>, \<open>select\<close> is \<open>soup.select(rule)\<close> and \<open>urljoin\<close> is
  \<open>urllib.parse.urljoin\<close>; each of the three returns or raises. \<open>now n\<close> is the formatted
  time of the clock after \<open>n\<close> requests. \<open>open_error d f\<close> is the exception that \<open>open\<close>
  raises for the file \<open>f\<close> of the directory \<open>d\<close>, if it raises. \<open>makedirs_error d\<close> is the
  exception that \<open>os.makedirs(d)\<close> raises, if it raises, when this worker calls it after
  it has found \<open>d\<close> missing: it is \<open>FileExistsError\<close> when another worker of the same
  crawl has created \<open>d\<close> in between.
\<close>

record env =
  network :: "nat \<Rightarrow> string \<Rightarrow> bool \<Rightarrow> request_error + response"
  html_parser :: "string \<Rightarrow> exn + soup"
  select :: "soup \<Rightarrow> string \<Rightarrow> exn + tag list"
  urljoin :: "string \<Rightarrow> string \<Rightarrow> exn + string"
  now :: "nat \<Rightarrow> string"
  open_error :: "string \<Rightarrow> string \<Rightarrow> exn option"
  makedirs_error :: "string \<Rightarrow> exn option"

text \<open>
  \<open>data_files\<close> are the files of the directory \<open>data\<close>, by file name. \<open>fails_txt\<close> and
  \<open>successes_csv\<close> are the two log files of a log directory, by the directory's path:
  the text of \<open>fails.txt\<close> (empty when the file does not exist: it is only appended to),
  and the rows of \<open>successes.csv\<close> as the lists given to \<open>csv.writer.writerow\<close>.
  \<open>requests_log\<close> lists the addresses of the GET requests sent so far, oldest first.
  \<open>directories\<close> are the log directories that exist. The directory \<open>data\<close> exists:
  \<open>crawl_websites\<close> creates it before the first worker starts.
\<close>

record world =
  data_files :: "string \<rightharpoonup> string"
  fails_txt :: "string \<Rightarrow> string"
  successes_csv :: "string \<Rightarrow> string list list"
  requests_log :: "string list"
  directories :: "string set"

text \<open>
  \<open>requests.get(url, ...)\<close>. The answer of the network may depend on how many requests
  came before and on \<open>stream\<close>. Without \<open>stream=True\<close> the body is read before \<open>get\<close>
  returns, so that a transfer that breaks raises there; with it the body is read later,
  by \<open>iter_content\<close>.
\<close>

definition requests_get ::
  "env \<Rightarrow> string \<Rightarrow> bool \<Rightarrow> world \<Rightarrow> (request_error + response) \<times> world" where
  "requests_get e u stream w =
     (let w' = w\<lparr>requests_log := requests_log w @ [u]\<rparr> in
      case network e (length (requests_log w)) u stream of
        Inl err \<Rightarrow> (Inl err, w')
      | Inr r \<Rightarrow> if \<not> stream \<and> aborted r then (Inl RequestException, w') else (Inr r, w'))"

text \<open>
  \<open>soup.find(name, attrs)\<close>: the first tag in document order with that name and those
  attribute values.
\<close>

definition soup_find :: "soup \<Rightarrow> string \<Rightarrow> (string \<times> string) list \<Rightarrow> tag option" where
  "soup_find soup nm want =
     find (\<lambda>t. tag_name t = nm \<and> list_all (\<lambda>(k, v). attrs t k = Some v) want) soup"

text \<open>\<open>tag[key]\<close>: the attribute, or a \<open>KeyError\<close>.\<close>

definition tag_getitem :: "tag \<Rightarrow> string \<Rightarrow> exn + string" where
  "tag_getitem t k = (case attrs t k of None \<Rightarrow> Inl (KeyError k) | Some v \<Rightarrow> Inr v)"

section \<open>Extraction\<close>

text \<open>\<open>extract_default_body_content\<close> (lines 240-249).\<close>

definition extract_default_body_content :: "soup \<Rightarrow> exn + string" where
  "extract_default_body_content soup =
     (case (case soup_find soup ''meta'' [(''name'', ''description'')] of
              Some meta_description \<Rightarrow> map_sum id Some (tag_getitem meta_description ''content'')
            | None \<Rightarrow> Inr None) of
        Inl x \<Rightarrow> Inl x
      | Inr (Some (c # cs)) \<Rightarrow> Inr (c # cs)
      | Inr _ \<Rightarrow>
          (case soup_find soup ''p'' [] of
             Some first_paragraph \<Rightarrow> Inr (get_text first_paragraph)
           | None \<Rightarrow> Inr ''No Body''))"

text \<open>
  The steps of \<open>get_page_content_with_rule\<close> after parsing, each under the lines it
  stands for: the title (line 43), the text the selector rule selects (lines 41 and
  45-51; the rule is a string, and the empty string is no rule), the cleaning of the
  body (lines 57-61) and the image address (lines 63-65).
\<close>

definition extract_title :: "soup \<Rightarrow> string" where
  "extract_title soup =
     (case soup_find soup ''h1'' [] of
        Some h1 \<Rightarrow> get_text h1
      | None \<Rightarrow> ''No Title'')"

definition select_body_text :: "env \<Rightarrow> soup \<Rightarrow> string \<Rightarrow> exn + string" where
  "select_body_text e soup body_class_rule =
     (if body_class_rule \<noteq> [] then
        (case select e soup body_class_rule of
           Inl x \<Rightarrow> Inl x
         | Inr body_content \<Rightarrow>
             if body_content \<noteq> []
             then Inr (join '' '' (map get_text body_content))
             else Inr [])
      else Inr [])"

definition clean_body :: "string \<Rightarrow> string" where
  "clean_body body_text = strip (re_sub_tags (re_sub_script body_text))"

definition extract_og_image :: "soup \<Rightarrow> exn + string option" where
  "extract_og_image soup =
     (case soup_find soup ''meta'' [(''property'', ''og:image'')] of
        Some og_image_tag \<Rightarrow> map_sum id Some (tag_getitem og_image_tag ''content'')
      | None \<Rightarrow> Inr None)"

text \<open>
  Lines 39-67: what \<open>get_page_content_with_rule\<close> does with a response of status 200.
  An exception ends the function where it is raised.
\<close>

definition extract_content ::
  "env \<Rightarrow> string \<Rightarrow> string \<Rightarrow> exn + string option \<times> string option \<times> string option" where
  "extract_content e raw_html body_class_rule =
     (case html_parser e raw_html of
        Inl x \<Rightarrow> Inl x
      | Inr soup \<Rightarrow>
          (let title = extract_title soup
           in case select_body_text e soup body_class_rule of
                Inl x \<Rightarrow> Inl x
              | Inr body_text \<Rightarrow>
                  (case (if body_text = [] then extract_default_body_content soup
                         else Inr body_text) of
                     Inl x \<Rightarrow> Inl x
                   | Inr body_text \<Rightarrow>
                       (case extract_og_image soup of
                          Inl x \<Rightarrow> Inl x
                        | Inr og_image_url \<Rightarrow>
                            Inr (Some title, Some (clean_body body_text), og_image_url)))))"

text \<open>
  \<open>get_page_content_with_rule\<close> (lines 32-75). The result is the triple the source
  returns, or the exception that leaves the function; the messages printed to standard
  output are not modelled.
\<close>

definition get_page_content_with_rule ::
  "env \<Rightarrow> string \<Rightarrow> string \<Rightarrow> string \<Rightarrow> world \<Rightarrow>
   (exn + string option \<times> string option \<times> string option) \<times> world" where
  "get_page_content_with_rule e u hostname body_class_rule w =
     (case requests_get e u False w of
        (Inl Timeout, w') \<Rightarrow> (Inr (None, None, None), w')
      | (Inl RequestException, w') \<Rightarrow> (Inr (None, None, None), w')
      | (Inr response, w') \<Rightarrow>
          if status_code response = 200
          then (extract_content e (content response) body_class_rule, w')
          else (Inr (None, None, None), w'))"

section \<open>Persistence and logging\<close>

text \<open>
  A step that has an effect returns the exception that leaves it, if any, and the world
  afterwards. \<open>and_then r f\<close> goes on with \<open>f\<close> when the step before returned, and stops
  with its exception otherwise.
\<close>

definition and_then ::
  "exn option \<times> world \<Rightarrow> (world \<Rightarrow> exn option \<times> world) \<Rightarrow> exn option \<times> world" where
  "and_then r f = (case r of (Some x, w) \<Rightarrow> (Some x, w) | (None, w) \<Rightarrow> f w)"

definition data_directory :: string where
  "data_directory = ''data''"

text \<open>
  Writing a file of \<open>data\<close> with \<open>open(..., 'w')\<close> and one \<open>write\<close>: \<open>open\<close> raises, or what
  was there is replaced.
\<close>

definition write_data :: "env \<Rightarrow> string \<Rightarrow> string \<Rightarrow> world \<Rightarrow> exn option \<times> world" where
  "write_data e file_name text w =
     (case open_error e data_directory file_name of
        Some x \<Rightarrow> (Some x, w)
      | None \<Rightarrow> (None, w\<lparr>data_files := (data_files w)(file_name \<mapsto> text)\<rparr>))"

text \<open>
  \<open>save_image\<close> (lines 77-97); \<open>image_file_nonempty\<close> is the test of line 79. The
  file is opened, and so emptied, before the first chunk is read; a transfer that breaks
  leaves the chunks that were delivered in the file, and the exception, a
  \<open>RequestException\<close>, is caught. An exception of \<open>open\<close> is not caught.
\<close>

definition image_file_nonempty :: "world \<Rightarrow> string \<Rightarrow> bool" where
  "image_file_nonempty w filename =
     (case data_files w (filename @ ''.png'') of
        Some bytes \<Rightarrow> length bytes > 0
      | None \<Rightarrow> False)"

definition save_image :: "env \<Rightarrow> string \<Rightarrow> string \<Rightarrow> world \<Rightarrow> exn option \<times> world" where
  "save_image e image_url filename w =
     (if image_file_nonempty w filename
      then (None, w)
      else
        (case requests_get e image_url True w of
           (Inl err, w') \<Rightarrow> (None, w')
         | (Inr response, w') \<Rightarrow>
             if status_code response = 200 then
               and_then (write_data e (filename @ ''.png'') (content response) w')
                 (\<lambda>w''. if aborted response then (None, w'')
                        else write_data e (filename @ ''-image.txt'') image_url w'')
             else (None, w')))"

text \<open>\<open>save_url\<close> (lines 99-102).\<close>

definition save_url :: "env \<Rightarrow> string \<Rightarrow> string \<Rightarrow> world \<Rightarrow> exn option \<times> world" where
  "save_url e u filename w = write_data e (filename @ ''-url.txt'') u w"

text \<open>
  The first two lines of each logging function (lines 129-130, 143-144): the log
  directory is created when \<open>os.path.exists\<close> has found it missing. \<open>os.makedirs\<close> is called
  without \<open>exist_ok\<close>, so it raises \<open>FileExistsError\<close> when another worker has created the
  directory in between; the directory is there then.
\<close>

definition make_log_directory :: "env \<Rightarrow> string \<Rightarrow> world \<Rightarrow> exn option \<times> world" where
  "make_log_directory e log_directory w =
     (if log_directory \<in> directories w then (None, w)
      else
        (case makedirs_error e log_directory of
           None \<Rightarrow> (None, w\<lparr>directories := insert log_directory (directories w)\<rparr>)
         | Some x \<Rightarrow>
             if x = FileExistsError
             then (Some x, w\<lparr>directories := insert log_directory (directories w)\<rparr>)
             else (Some x, w)))"

text \<open>
  \<open>log_successful_crawl\<close> (lines 127-139). The timestamp is what the clock shows when
  the row is written; the clock is read by the number of requests sent so far.
\<close>

definition log_successful_crawl :: "env \<Rightarrow> string \<Rightarrow> string \<Rightarrow> world \<Rightarrow> exn option \<times> world" where
  "log_successful_crawl e u log_directory w =
     and_then (make_log_directory e log_directory w)
       (\<lambda>w'. let timestamp = now e (length (requests_log w'));
                 log_data = [u, ''200'', timestamp]
             in case open_error e log_directory ''successes.csv'' of
                  Some x \<Rightarrow> (Some x, w')
                | None \<Rightarrow>
                    (None, w'\<lparr>successes_csv :=
                       (successes_csv w')
                         (log_directory := successes_csv w' log_directory @ [log_data])\<rparr>))"

text \<open>\<open>log_failed_url\<close> (lines 141-148).\<close>

definition log_failed_url :: "env \<Rightarrow> string \<Rightarrow> string \<Rightarrow> world \<Rightarrow> exn option \<times> world" where
  "log_failed_url e u log_directory w =
     and_then (make_log_directory e log_directory w)
       (\<lambda>w'. case open_error e log_directory ''fails.txt'' of
                Some x \<Rightarrow> (Some x, w')
              | None \<Rightarrow>
                  (None, w'\<lparr>fails_txt :=
                     (fails_txt w')
                       (log_directory := fails_txt w' log_directory @ u @ [NL])\<rparr>))"

section \<open>The pipeline for one address\<close>

text \<open>
  Lines 185-190 of \<open>crawl_page_with_rule\<close>: the image, when extraction returned an address
  for it that is not empty. \<open>urljoin\<close> is called with the address that was crawled.
\<close>

definition save_og_image ::
  "env \<Rightarrow> string \<Rightarrow> string option \<Rightarrow> string \<Rightarrow> world \<Rightarrow> exn option \<times> world" where
  "save_og_image e u og_image_url filename w =
     (case og_image_url of
        Some (c # cs) \<Rightarrow>
          (case urljoin e u (c # cs) of
             Inl x \<Rightarrow> (Some x, w)
           | Inr image_url \<Rightarrow> save_image e image_url filename w)
      | _ \<Rightarrow> (None, w))"

text \<open>
  \<open>crawl_page_with_rule\<close> (lines 164-197). \<open>if title and body\<close> holds when neither is
  \<open>None\<close> nor the empty string. The result is the exception that leaves the function,
  if any, and the world afterwards.
\<close>

definition crawl_page_with_rule ::
  "env \<Rightarrow> string \<Rightarrow> string \<Rightarrow> string \<Rightarrow> string \<Rightarrow> string \<Rightarrow> world \<Rightarrow> exn option \<times> world" where
  "crawl_page_with_rule e u log_directory title_search title_replace body_class_rule w =
     (case get_page_content_with_rule e u title_search body_class_rule w of
        (Inl x, w1) \<Rightarrow> (Some x, w1)
      | (Inr (Some (t # ts), Some (b # bs), og_image_url), w1) \<Rightarrow>
          (let title = apply_title_transform (t # ts) title_search title_replace;
               title = strip title;
               filename = clean_filename title
           in and_then
                (write_data e (filename @ ''.txt'')
                   (title @ [NL] @ ''---'' @ [NL] @ (b # bs) @ [NL]) w1)
                (\<lambda>w2. and_then (save_url e u filename w2)
                   (\<lambda>w3. and_then (save_og_image e u og_image_url filename w3)
                      (\<lambda>w4. log_successful_crawl e u log_directory w4))))
      | (Inr _, w1) \<Rightarrow> log_failed_url e u log_directory w1)"

section \<open>The dispatch loop\<close>

text \<open>
  \<open>crawl_websites\<close> (lines 199-237) starts one thread for each address and goes on
  while the threads run. The model is a transition system: the state of the dispatch
  loop and of its threads, and the events that change it. An event is a step of the
  dispatch loop that has returned, or the end of a worker: \<open>Acquire\<close> is
  \<open>semaphore.acquire()\<close>, \<open>Start i\<close> is the start of the thread for address number
  \<open>i\<close> and its entry in \<open>threads\<close>, \<open>Sleep d\<close> is \<open>time.sleep(d)\<close>, \<open>Release\<close> is
  \<open>semaphore.release()\<close>, \<open>Join k\<close> is \<open>threads[k].join()\<close>, \<open>Return\<close> is the end of
  \<open>crawl_websites\<close>, and \<open>Finish i\<close> is the end of \<open>crawl_page_with_rule\<close> in thread
  \<open>i\<close>, by a return or by an exception. What a worker does to the files is the subject
  of the sections above and is left out here, and so is the length of a sleep.
\<close>

datatype event = Acquire | Start nat | Sleep int | Release | Join nat | Return | Finish nat

text \<open>
  Where the dispatch loop stands: before one of the four steps of the iteration for
  address number \<open>i\<close>, before the join of thread number \<open>k\<close>, after its return, or
  stopped by the \<open>ValueError\<close> that \<open>time.sleep\<close> raises for a negative delay in iteration
  \<open>i\<close>.
\<close>

datatype pc = AtAcquire nat | AtStart nat | AtSleep nat | AtRelease nat | AtJoin nat
  | Returned | Raised nat

text \<open>
  \<open>semaphore\<close> is the counter of the semaphore, \<open>threads\<close> the list of the threads
  started (a thread is named by the number of its address), \<open>running\<close> the threads that
  have started and not ended.
\<close>

record sched =
  pc :: pc
  semaphore :: nat
  threads :: "nat list"
  running :: "nat set"

definition loop_head :: "string list \<Rightarrow> nat \<Rightarrow> pc" where
  "loop_head urls i = (if i < length urls then AtAcquire i else AtJoin 0)"

text \<open>
  The state before the first iteration. \<open>max_threads\<close> is a natural number:
  \<open>threading.Semaphore\<close> refuses a negative value before any address is looked at.
\<close>

definition crawl_websites_start :: "string list \<Rightarrow> nat \<Rightarrow> sched" where
  "crawl_websites_start urls max_threads =
     \<lparr>pc = loop_head urls 0, semaphore = max_threads, threads = [], running = {}\<rparr>"

text \<open>
  One event. The result is \<open>None\<close> when the event cannot happen in the state:
  \<open>Acquire\<close> waits while the counter is zero, \<open>Join\<close> waits while the thread runs.
  \<open>delay_of\<close> stands for \<open>get_delay\<close> applied to the hostname of the address.
\<close>

fun exec_event :: "(string \<Rightarrow> int) \<Rightarrow> string list \<Rightarrow> event \<Rightarrow> sched \<Rightarrow> sched option" where
  "exec_event delay_of urls Acquire s =
     (case pc s of
        AtAcquire i \<Rightarrow>
          if 0 < semaphore s
          then Some (s\<lparr>pc := AtStart i, semaphore := semaphore s - 1\<rparr>)
          else None
      | _ \<Rightarrow> None)"
| "exec_event delay_of urls (Start j) s =
     (case pc s of
        AtStart i \<Rightarrow>
          if j = i
          then Some (s\<lparr>pc := AtSleep i, threads := threads s @ [i],
                       running := insert i (running s)\<rparr>)
          else None
      | _ \<Rightarrow> None)"
| "exec_event delay_of urls (Sleep d) s =
     (case pc s of
        AtSleep i \<Rightarrow>
          if i < length urls \<and> d = delay_of (urls ! i)
          then Some (s\<lparr>pc := (if d < 0 then Raised i else AtRelease i)\<rparr>)
          else None
      | _ \<Rightarrow> None)"
| "exec_event delay_of urls Release s =
     (case pc s of
        AtRelease i \<Rightarrow>
          Some (s\<lparr>pc := loop_head urls (Suc i), semaphore := semaphore s + 1\<rparr>)
      | _ \<Rightarrow> None)"
| "exec_event delay_of urls (Join j) s =
     (case pc s of
        AtJoin k \<Rightarrow>
          if j = k \<and> k < length (threads s) \<and> threads s ! k \<notin> running s
          then Some (s\<lparr>pc := AtJoin (Suc k)\<rparr>)
          else None
      | _ \<Rightarrow> None)"
| "exec_event delay_of urls Return s =
     (case pc s of
        AtJoin k \<Rightarrow> if k = length (threads s) then Some (s\<lparr>pc := Returned\<rparr>) else None
      | _ \<Rightarrow> None)"
| "exec_event delay_of urls (Finish i) s =
     (if i \<in> running s then Some (s\<lparr>running := running s - {i}\<rparr>) else None)"

text \<open>A sequence of events, from the left.\<close>

fun run_events :: "(string \<Rightarrow> int) \<Rightarrow> string list \<Rightarrow> event list \<Rightarrow> sched \<Rightarrow> sched option" where
  "run_events delay_of urls [] s = Some s"
| "run_events delay_of urls (ev # evs) s =
     (case exec_event delay_of urls ev s of
        None \<Rightarrow> None
      | Some s' \<Rightarrow> run_events delay_of urls evs s')"

text \<open>
  The events of the dispatch loop in the order of the source text: the four steps of
  each iteration, then the joins, then the return.
\<close>

definition iteration :: "(string \<Rightarrow> int) \<Rightarrow> string list \<Rightarrow> nat \<Rightarrow> event list" where
  "iteration delay_of urls i = [Acquire, Start i, Sleep (delay_of (urls ! i)), Release]"

definition dispatch_all :: "(string \<Rightarrow> int) \<Rightarrow> string list \<Rightarrow> nat \<Rightarrow> event list" where
  "dispatch_all delay_of urls k = concat (map (iteration delay_of urls) [0..<k])"

definition dispatcher_program :: "(string \<Rightarrow> int) \<Rightarrow> string list \<Rightarrow> event list" where
  "dispatcher_program delay_of urls =
     dispatch_all delay_of urls (length urls) @ map Join [0..<length urls] @ [Return]"

fun is_finish :: "event \<Rightarrow> bool" where
  "is_finish (Finish i) = True"
| "is_finish ev = False"

definition dispatcher_events :: "event list \<Rightarrow> event list" where
  "dispatcher_events evs = filter (\<lambda>ev. \<not> is_finish ev) evs"

text \<open>The events of the dispatch loop that lie before a point of the loop.\<close>

fun events_before :: "(string \<Rightarrow> int) \<Rightarrow> string list \<Rightarrow> pc \<Rightarrow> event list" where
  "events_before delay_of urls (AtAcquire i) = dispatch_all delay_of urls i"
| "events_before delay_of urls (AtStart i) = dispatch_all delay_of urls i @ [Acquire]"
| "events_before delay_of urls (AtSleep i) = dispatch_all delay_of urls i @ [Acquire, Start i]"
| "events_before delay_of urls (AtRelease i) =
     dispatch_all delay_of urls i @ [Acquire, Start i, Sleep (delay_of (urls ! i))]"
| "events_before delay_of urls (Raised i) =
     dispatch_all delay_of urls i @ [Acquire, Start i, Sleep (delay_of (urls ! i))]"
| "events_before delay_of urls (AtJoin k) =
     dispatch_all delay_of urls (length urls) @ map Join [0..<k]"
| "events_before delay_of urls Returned = dispatcher_program delay_of urls"

text \<open>What holds of every state that the dispatch loop reaches.\<close>

definition dispatch_inv :: "string list \<Rightarrow> nat \<Rightarrow> sched \<Rightarrow> bool" where
  "dispatch_inv urls m s =
     (running s \<subseteq> set (threads s) \<and>
      (case pc s of
         AtAcquire i \<Rightarrow> i < length urls \<and> semaphore s = m \<and> threads s = [0..<i]
       | AtStart i \<Rightarrow> i < length urls \<and> Suc (semaphore s) = m \<and> threads s = [0..<i]
       | AtSleep i \<Rightarrow> i < length urls \<and> Suc (semaphore s) = m \<and> threads s = [0..<Suc i]
       | AtRelease i \<Rightarrow> i < length urls \<and> Suc (semaphore s) = m \<and> threads s = [0..<Suc i]
       | AtJoin k \<Rightarrow> k \<le> length urls \<and> semaphore s = m \<and> threads s = [0..<length urls]
                      \<and> (\<forall>j<k. j \<notin> running s)
       | Returned \<Rightarrow> semaphore s = m \<and> threads s = [0..<length urls] \<and> running s = {}
       | Raised i \<Rightarrow> i < length urls))"

section \<open>Predicates used in the statements\<close>

text \<open>Python's truth value of a string that may be \<open>None\<close>.\<close>

definition truthy :: "string option \<Rightarrow> bool" where
  "truthy v = (case v of Some (c # cs) \<Rightarrow> True | _ \<Rightarrow> False)"

text \<open>
  The fetch of the page at \<open>u\<close> fails in world \<open>w\<close>: the request raises (a timeout, or
  another \<open>RequestException\<close>, a transfer that breaks among them), or the status of the
  response is not 200.
\<close>

definition fetch_fails :: "env \<Rightarrow> world \<Rightarrow> string \<Rightarrow> bool" where
  "fetch_fails e w u =
     (case network e (length (requests_log w)) u False of
        Inl err \<Rightarrow> True
      | Inr r \<Rightarrow> aborted r \<or> status_code r \<noteq> 200)"

text \<open>
  The log file \<open>f\<close> of the directory \<open>d\<close> can be appended to: the directory is there or
  this worker creates it, and \<open>open\<close> does not raise.
\<close>

definition can_log :: "env \<Rightarrow> world \<Rightarrow> string \<Rightarrow> string \<Rightarrow> bool" where
  "can_log e w d f =
     ((d \<in> directories w \<or> makedirs_error e d = None) \<and> open_error e d f = None)"

text \<open>The file \<open>f\<close> of \<open>data\<close> can be written.\<close>

definition can_write :: "env \<Rightarrow> string \<Rightarrow> bool" where
  "can_write e f = (open_error e data_directory f = None)"



section \<open>Example inputs\<close>

text \<open>
  \<open>urllib.parse.urljoin\<close> for the examples: for a base \<open>scheme://host/...\<close> and a
  reference that is a path from the root (one leading slash, no dot segments) the result
  is \<open>scheme://host\<close> followed by the reference. Every other reference is returned as it
  is, which is what \<open>urljoin\<close> does with an absolute address; other relative references
  do not occur in the examples.
\<close>

definition urljoin_root :: "string \<Rightarrow> string \<Rightarrow> string" where
  "urljoin_root base ref =
     (case after_first ''://'' base of
        Some rest \<Rightarrow>
          if prefix ''/'' ref \<and> \<not> prefix ''//'' ref
          then take (length base - length rest) base
                 @ takeWhile (\<lambda>c. c \<notin> set ''/?#'') rest @ ref
          else ref
      | None \<Rightarrow> ref)"

text \<open>
  \<open>soup.select\<close> for the examples: a rule \<open>.name\<close> selects the tags whose \<open>class\<close>
  attribute is \<open>name\<close>, and a rule without a dot selects the tags of that name. Other
  rules do not occur in the examples.
\<close>

definition select_simple :: "soup \<Rightarrow> string \<Rightarrow> exn + tag list" where
  "select_simple soup rule =
     (case rule of
        [] \<Rightarrow> Inl SelectorSyntaxError
      | c # cs \<Rightarrow>
          if c = CHR ''.'' then Inr (filter (\<lambda>t. attrs t ''class'' = Some cs) soup)
          else Inr (filter (\<lambda>t. tag_name t = rule) soup))"

text \<open>
  \<open>open\<close> for the examples: a file name of more than 255 characters is refused.
\<close>

definition open_error_long :: "string \<Rightarrow> string \<Rightarrow> exn option" where
  "open_error_long d f = (if 255 < length f then Some OSError else None)"

text \<open>
  An environment whose network answers by address only, whose parser returns the given
  document for every page, and in which no other worker is in the way.
\<close>

definition example_env :: "(string \<Rightarrow> request_error + response) \<Rightarrow> soup \<Rightarrow> env" where
  "example_env net doc =
     \<lparr>network = (\<lambda>n u stream. net u),
      html_parser = (\<lambda>raw_html. Inr doc),
      select = select_simple,
      urljoin = (\<lambda>base ref. Inr (urljoin_root base ref)),
      now = (\<lambda>n. ''2024-02-03 12:00:00''),
      open_error = open_error_long,
      makedirs_error = (\<lambda>d. None)\<rparr>"

text \<open>
  The same, for a worker that loses the race for the log directory: another worker
  creates it in between.
\<close>

definition racing_env :: "(string \<Rightarrow> request_error + response) \<Rightarrow> soup \<Rightarrow> env" where
  "racing_env net doc =
     (example_env net doc)\<lparr>makedirs_error := (\<lambda>d. Some FileExistsError)\<rparr>"

definition ok_response :: "string \<Rightarrow> string \<Rightarrow> response" where
  "ok_response u body = \<lparr>status_code = 200, content = body, resp_url = u, aborted = False\<rparr>"

definition new_world :: world where
  "new_world =
     \<lparr>data_files = Map.empty, fails_txt = (\<lambda>d. []), successes_csv = (\<lambda>d. []),
      requests_log = [], directories = {}\<rparr>"

definition meta_tag :: "(string \<times> string) list \<Rightarrow> tag" where
  "meta_tag kvs = \<lparr>tag_name = ''meta'', attrs = map_of kvs, get_text = []\<rparr>"

definition text_tag :: "string \<Rightarrow> string \<Rightarrow> tag" where
  "text_tag nm txt = \<lparr>tag_name = nm, attrs = Map.empty, get_text = txt\<rparr>"

definition class_tag :: "string \<Rightarrow> string \<Rightarrow> string \<Rightarrow> tag" where
  "class_tag nm cls txt = \<lparr>tag_name = nm, attrs = [''class'' \<mapsto> cls], get_text = txt\<rparr>"

text \<open>Every address answers with status 200.\<close>

definition net_ok :: "string \<Rightarrow> request_error + response" where
  "net_ok u = Inr (ok_response u ''<html>'')"

text \<open>Every request times out.\<close>

definition net_timeout :: "string \<Rightarrow> request_error + response" where
  "net_timeout u = Inl Timeout"

text \<open>A page whose only tag is an \<open>og:image\<close> meta element without \<open>content\<close>.\<close>

definition doc_image_without_content :: soup where
  "doc_image_without_content = [meta_tag [(''property'', ''og:image'')]]"

text \<open>
  The page of the end-to-end scenario: a heading, a paragraph and an \<open>og:image\<close> meta
  element with a path from the root.
\<close>

definition doc_article :: soup where
  "doc_article =
     [text_tag ''h1'' ''Title A'', text_tag ''p'' ''Body A'',
      meta_tag [(''property'', ''og:image''), (''content'', ''/img.png'')]]"

text \<open>The image of the scenario is missing (status 404); every other address answers.\<close>

definition net_image_404 :: "string \<Rightarrow> request_error + response" where
  "net_image_404 u =
     (if u = ''http://a.example/img.png''
      then Inr \<lparr>status_code = 404, content = [], resp_url = u, aborted = False\<rparr>
      else Inr (ok_response u ''<html>''))"

text \<open>A world in which the image \<open>Title A.png\<close> is already there.\<close>

definition world_with_image :: world where
  "world_with_image = new_world\<lparr>data_files := [''Title A.png'' \<mapsto> ''PNG'']\<rparr>"

text \<open>
  Every request is redirected: the response comes from \<open>http://b.example/a\<close>, whatever
  address was asked for.
\<close>

definition net_redirect :: "string \<Rightarrow> request_error + response" where
  "net_redirect u = Inr (ok_response ''http://b.example/a'' ''<html>'')"

text \<open>A page with a description whose text holds a tag, and a page with a plain one.\<close>

definition doc_description_markup :: soup where
  "doc_description_markup =
     [meta_tag [(''name'', ''description''), (''content'', ''a<b>c'')],
      text_tag ''p'' ''First paragraph'']"

definition doc_description :: soup where
  "doc_description =
     [meta_tag [(''name'', ''description''), (''content'', '' A summary. '')],
      text_tag ''p'' ''First paragraph'']"

text \<open>
  A page with a description and two elements of the class \<open>content\<close>, and a page
  whose only element of that class is empty.
\<close>

definition doc_selected :: soup where
  "doc_selected =
     [meta_tag [(''name'', ''description''), (''content'', ''A summary.'')],
      class_tag ''div'' ''content'' '' Hello'', text_tag ''p'' ''First paragraph'',
      class_tag ''div'' ''content'' ''<b>world</b> '']"

definition doc_selected_empty :: soup where
  "doc_selected_empty =
     [class_tag ''div'' ''content'' [], text_tag ''p'' ''First paragraph'']"

text \<open>Two addresses, no delay.\<close>

definition two_urls :: "string list" where
  "two_urls = [''http://a.example/a'', ''http://b.example/b'']"

definition no_delay :: "string \<Rightarrow> int" where
  "no_delay u = 0"

text \<open>
  An execution for the two addresses: both threads are started before either ends, the
  second ends first, and the loop joins both and returns.
\<close>

definition example_run :: "event list" where
  "example_run =
     [Acquire, Start 0, Sleep 0, Release, Acquire, Start 1, Sleep 0, Release,
      Finish 1, Finish 0, Join 0, Join 1, Return]"

section \<open>Properties of the crawler\<close>

subsection \<open>What the steps do to the world\<close>

lemma requests_get_world:
  "snd (requests_get e u stream w) = w\<lparr>requests_log := requests_log w @ [u]\<rparr>"
  by (simp add: requests_get_def Let_def split: sum.splits)

lemma get_page_content_world:
  "snd (get_page_content_with_rule e u h r w) = w\<lparr>requests_log := requests_log w @ [u]\<rparr>"
  using requests_get_world [of e u False w]
  by (auto simp: get_page_content_with_rule_def
           split: prod.splits sum.splits request_error.splits)

lemma get_page_content_snd:
  "get_page_content_with_rule e u h r w = (x, w1) \<Longrightarrow>
   w1 = w\<lparr>requests_log := requests_log w @ [u]\<rparr>"
  using get_page_content_world [of e u h r w] by simp

lemma get_page_content_fetch_fails:
  "fetch_fails e w u \<Longrightarrow>
   get_page_content_with_rule e u h r w =
     (Inr (None, None, None), w\<lparr>requests_log := requests_log w @ [u]\<rparr>)"
  by (auto simp: fetch_fails_def get_page_content_with_rule_def requests_get_def Let_def
           split: sum.splits request_error.splits)

lemma and_then_fst:
  "fst (and_then r f) = (case fst r of Some x \<Rightarrow> Some x | None \<Rightarrow> fst (f (snd r)))"
  by (cases r) (simp add: and_then_def split: option.splits)

lemma and_then_snd:
  "snd (and_then r f) = (case fst r of Some x \<Rightarrow> snd r | None \<Rightarrow> snd (f (snd r)))"
  by (cases r) (simp add: and_then_def split: option.splits)

lemma write_data_fst: "fst (write_data e n x w) = open_error e data_directory n"
  by (simp add: write_data_def split: option.splits)

lemma write_data_fields:
  "fails_txt (snd (write_data e n x w)) = fails_txt w"
  "successes_csv (snd (write_data e n x w)) = successes_csv w"
  "requests_log (snd (write_data e n x w)) = requests_log w"
  "directories (snd (write_data e n x w)) = directories w"
  "data_files (snd (write_data e n x w)) =
     (if open_error e data_directory n = None then (data_files w)(n \<mapsto> x)
      else data_files w)"
  by (simp_all add: write_data_def split: option.splits)

lemma save_image_fields:
  "fails_txt (snd (save_image e i fn w)) = fails_txt w"
  "successes_csv (snd (save_image e i fn w)) = successes_csv w"
  "directories (snd (save_image e i fn w)) = directories w"
  by (auto simp: save_image_def requests_get_def Let_def and_then_snd write_data_fields
           split: sum.splits option.splits)

lemma save_image_other_files:
  "n \<noteq> fn @ ''.png'' \<Longrightarrow> n \<noteq> fn @ ''-image.txt'' \<Longrightarrow>
   data_files (snd (save_image e i fn w)) n = data_files w n"
  by (auto simp: save_image_def requests_get_def Let_def and_then_snd write_data_fields
           split: sum.splits option.splits)

lemma save_image_requests:
  "requests_log (snd (save_image e i fn w)) =
     requests_log w @ (if image_file_nonempty w fn then [] else [i])"
  by (auto simp: save_image_def requests_get_def Let_def and_then_snd write_data_fields
           split: sum.splits option.splits)

lemma save_og_image_fields:
  "fails_txt (snd (save_og_image e u og fn w)) = fails_txt w"
  "successes_csv (snd (save_og_image e u og fn w)) = successes_csv w"
  "directories (snd (save_og_image e u og fn w)) = directories w"
  by (simp_all add: save_og_image_def save_image_fields
        split: option.splits list.splits sum.splits)

lemma save_og_image_other_files:
  "n \<noteq> fn @ ''.png'' \<Longrightarrow> n \<noteq> fn @ ''-image.txt'' \<Longrightarrow>
   data_files (snd (save_og_image e u og fn w)) n = data_files w n"
  by (simp add: save_og_image_def save_image_other_files
        split: option.splits list.splits sum.splits)

lemma make_log_directory_fields:
  "data_files (snd (make_log_directory e d w)) = data_files w"
  "fails_txt (snd (make_log_directory e d w)) = fails_txt w"
  "successes_csv (snd (make_log_directory e d w)) = successes_csv w"
  "requests_log (snd (make_log_directory e d w)) = requests_log w"
  by (simp_all add: make_log_directory_def split: option.splits)

lemma make_log_directory_fst:
  "fst (make_log_directory e d w) = (if d \<in> directories w then None else makedirs_error e d)"
  by (simp add: make_log_directory_def split: option.splits)

lemma log_successful_crawl_fields:
  "data_files (snd (log_successful_crawl e u d w)) = data_files w"
  "fails_txt (snd (log_successful_crawl e u d w)) = fails_txt w"
  "requests_log (snd (log_successful_crawl e u d w)) = requests_log w"
  by (simp_all add: log_successful_crawl_def and_then_snd make_log_directory_fields Let_def
        split: option.splits)

lemma log_successful_crawl_rows:
  "successes_csv (snd (log_successful_crawl e u d w)) =
     (if fst (log_successful_crawl e u d w) = None
      then (successes_csv w)
             (d := successes_csv w d @ [[u, ''200'', now e (length (requests_log w))]])
      else successes_csv w)"
  by (simp add: log_successful_crawl_def and_then_fst and_then_snd
        make_log_directory_fields Let_def split: option.splits)

lemma log_failed_url_fields:
  "data_files (snd (log_failed_url e u d w)) = data_files w"
  "successes_csv (snd (log_failed_url e u d w)) = successes_csv w"
  "requests_log (snd (log_failed_url e u d w)) = requests_log w"
  by (simp_all add: log_failed_url_def and_then_snd make_log_directory_fields
        split: option.splits)

lemma log_failed_url_lines:
  "fails_txt (snd (log_failed_url e u d w)) =
     (if fst (log_failed_url e u d w) = None
      then (fails_txt w)(d := fails_txt w d @ u @ [NL])
      else fails_txt w)"
  by (simp add: log_failed_url_def and_then_fst and_then_snd make_log_directory_fields
        split: option.splits)

lemma log_failed_url_fst:
  "fst (log_failed_url e u d w) = None \<longleftrightarrow> can_log e w d ''fails.txt''"
  by (auto simp: log_failed_url_def and_then_fst and_then_snd make_log_directory_fst
        can_log_def split: option.splits if_splits)

lemma crawl_page_failure:
  "get_page_content_with_rule e u ts r w = (Inr (title, body, og), w1) \<Longrightarrow>
   \<not> (truthy title \<and> truthy body) \<Longrightarrow>
   crawl_page_with_rule e u ld ts tr r w = log_failed_url e u ld w1"
  by (auto simp: crawl_page_with_rule_def truthy_def split: option.splits list.splits)

lemma crawl_page_success:
  "get_page_content_with_rule e u ts r w = (Inr (Some t, Some b, og), w1) \<Longrightarrow>
   t \<noteq> [] \<Longrightarrow> b \<noteq> [] \<Longrightarrow>
   title = strip (apply_title_transform t ts tr) \<Longrightarrow>
   filename = clean_filename title \<Longrightarrow>
   crawl_page_with_rule e u ld ts tr r w =
     and_then
       (write_data e (filename @ ''.txt'') (title @ [NL] @ ''---'' @ [NL] @ b @ [NL]) w1)
       (\<lambda>w2. and_then (save_url e u filename w2)
          (\<lambda>w3. and_then (save_og_image e u og filename w3)
             (\<lambda>w4. log_successful_crawl e u ld w4)))"
  by (cases t; cases b) (simp_all add: crawl_page_with_rule_def Let_def)

text \<open>
  The success branch, field by field: the log files, and when the branch ends by an
  exception.
\<close>

lemma success_branch_fails_txt:
  assumes "r = and_then (write_data e n1 x1 w1)
       (\<lambda>w2. and_then (save_url e u fn w2)
          (\<lambda>w3. and_then (save_og_image e u og fn w3)
             (\<lambda>w4. log_successful_crawl e u ld w4)))"
  shows "fails_txt (snd r) = fails_txt w1"
  unfolding assms
  by (simp add: and_then_snd write_data_fields save_url_def save_og_image_fields
        log_successful_crawl_fields split: option.splits)

lemma success_branch_rows:
  assumes "r = and_then (write_data e n1 x1 w1)
       (\<lambda>w2. and_then (save_url e u fn w2)
          (\<lambda>w3. and_then (save_og_image e u og fn w3)
             (\<lambda>w4. log_successful_crawl e u ld w4)))"
  shows "successes_csv (snd r) =
           (if fst r = None
            then (successes_csv w1)
              (ld := successes_csv w1 ld @ [[u, ''200'', now e (length (requests_log (snd r)))]])
            else successes_csv w1)"
  unfolding assms
  by (simp add: and_then_snd and_then_fst write_data_fields save_url_def
        save_og_image_fields log_successful_crawl_fields log_successful_crawl_rows
        split: option.splits)

lemma save_og_image_requests:
  "requests_log (snd (save_og_image e u og fn w)) =
     requests_log w @
       (case og of
          Some (c # cs) \<Rightarrow>
            (case urljoin e u (c # cs) of
               Inl x \<Rightarrow> []
             | Inr image_url \<Rightarrow> if image_file_nonempty w fn then [] else [image_url])
        | _ \<Rightarrow> [])"
  by (simp add: save_og_image_def save_image_requests
        split: option.splits list.splits sum.splits)

lemma save_image_complete:
  assumes "\<not> image_file_nonempty w fn"
      and "network e (length (requests_log w)) i True = Inr r"
      and "status_code r = 200" and "\<not> aborted r"
      and "can_write e (fn @ ''.png'')" and "can_write e (fn @ ''-image.txt'')"
  shows "data_files (snd (save_image e i fn w)) =
           (data_files w)(fn @ ''.png'' \<mapsto> content r, fn @ ''-image.txt'' \<mapsto> i)"
  using assms
  by (simp add: save_image_def requests_get_def Let_def and_then_def write_data_def
        can_write_def)

text \<open>The success branch up to the image, when the two text files can be written.\<close>

lemma success_branch_image:
  assumes "r = and_then (write_data e (fn @ ''.txt'') x1 w1)
       (\<lambda>w2. and_then (save_url e u fn w2)
          (\<lambda>w3. and_then (save_og_image e u og fn w3)
             (\<lambda>w4. log_successful_crawl e u ld w4)))"
      and "can_write e (fn @ ''.txt'')" and "can_write e (fn @ ''-url.txt'')"
      and "w3 = w1\<lparr>data_files := (data_files w1)(fn @ ''.txt'' \<mapsto> x1, fn @ ''-url.txt'' \<mapsto> u)\<rparr>"
  shows "requests_log (snd r) = requests_log (snd (save_og_image e u og fn w3))"
    and "data_files (snd r) = data_files (snd (save_og_image e u og fn w3))"
    and "fst (save_og_image e u og fn w3) = Some x \<Longrightarrow> fst r = Some x"
  using assms(2,3) unfolding assms(1,4)
  by (simp_all add: and_then_snd and_then_fst write_data_def save_url_def can_write_def
        log_successful_crawl_fields split: option.splits)

lemma success_branch_data:
  assumes "r = and_then (write_data e (fn @ ''.txt'') x1 w1)
       (\<lambda>w2. and_then (save_url e u fn w2)
          (\<lambda>w3. and_then (save_og_image e u og fn w3)
             (\<lambda>w4. log_successful_crawl e u ld w4)))"
      and "fst r = None"
  shows "data_files (snd r) (fn @ ''.txt'') = Some x1"
    and "data_files (snd r) (fn @ ''-url.txt'') = Some u"
  using assms(2) unfolding assms(1)
  by (simp_all add: and_then_snd and_then_fst write_data_fields write_data_fst save_url_def
        save_og_image_other_files log_successful_crawl_fields split: option.splits)

text \<open>
  One worker on its own: when the fetch fails and the log file can be appended to, the
  function returns, one request has been sent, the address and a newline have been
  appended to \<open>fails.txt\<close>, and the files of \<open>data\<close> and \<open>successes.csv\<close> are as before.
\<close>

lemma fetch_failure_logged_when_undisturbed:
  assumes "fetch_fails e w u" and "can_log e w ld ''fails.txt''"
      and "r = crawl_page_with_rule e u ld ts tr rule w"
  shows "fst r = None"
    and "requests_log (snd r) = requests_log w @ [u]"
    and "fails_txt (snd r) = (fails_txt w)(ld := fails_txt w ld @ u @ [NL])"
    and "data_files (snd r) = data_files w"
    and "successes_csv (snd r) = successes_csv w"
proof -
  let ?w1 = "w\<lparr>requests_log := requests_log w @ [u]\<rparr>"
  have "get_page_content_with_rule e u ts rule w = (Inr (None, None, None), ?w1)"
    using assms(1) by (rule get_page_content_fetch_fails)
  then have r: "r = log_failed_url e u ld ?w1"
    unfolding assms(3) by (rule crawl_page_failure) (simp add: truthy_def)
  have c: "can_log e ?w1 ld ''fails.txt''"
    using assms(2) by (simp add: can_log_def)
  then show "fst r = None"
    by (simp add: r log_failed_url_fst)
  then show "fails_txt (snd r) = (fails_txt w)(ld := fails_txt w ld @ u @ [NL])"
    by (simp add: r log_failed_url_lines)
  show "requests_log (snd r) = requests_log w @ [u]"
    and "data_files (snd r) = data_files w"
    and "successes_csv (snd r) = successes_csv w"
    by (simp_all add: r log_failed_url_fields)
qed

subsection \<open>The body\<close>

lemma re_sub_tags_plain: "CHR ''<'' \<notin> set s \<Longrightarrow> re_sub_tags s = s"
  by (induction s) auto

lemma re_sub_script_plain: "CHR ''<'' \<notin> set s \<Longrightarrow> re_sub_script s = s"
  by (induction s) auto

lemma clean_body_plain: "CHR ''<'' \<notin> set s \<Longrightarrow> clean_body s = strip s"
  by (simp add: clean_body_def re_sub_tags_plain re_sub_script_plain)


subsection \<open>The dispatch loop\<close>

lemma run_events_append:
  "run_events delay_of urls (xs @ ys) s =
     (case run_events delay_of urls xs s of None \<Rightarrow> None | Some s' \<Rightarrow> run_events delay_of urls ys s')"
  by (induction xs arbitrary: s) (auto split: option.splits)

lemma dispatch_inv_start: "dispatch_inv urls m (crawl_websites_start urls m)"
  by (auto simp: dispatch_inv_def crawl_websites_start_def loop_head_def)

lemma dispatch_inv_exec:
  "dispatch_inv urls m s \<Longrightarrow> exec_event delay_of urls ev s = Some s' \<Longrightarrow> dispatch_inv urls m s'"
proof (cases ev)
  case Acquire
  assume "dispatch_inv urls m s" "exec_event delay_of urls ev s = Some s'"
  with Acquire show ?thesis
    by (cases "pc s") (auto simp: dispatch_inv_def split: if_splits)
next
  case (Start j)
  assume "dispatch_inv urls m s" "exec_event delay_of urls ev s = Some s'"
  with Start show ?thesis
    by (cases "pc s") (auto simp: dispatch_inv_def split: if_splits)
next
  case (Sleep d)
  assume "dispatch_inv urls m s" "exec_event delay_of urls ev s = Some s'"
  with Sleep show ?thesis
    by (cases "pc s") (auto simp: dispatch_inv_def split: if_splits)
next
  case Release
  assume a: "dispatch_inv urls m s" "exec_event delay_of urls ev s = Some s'"
  show ?thesis
  proof (cases "pc s")
    case (AtRelease i)
    with a Release have i: "i < length urls" and t: "threads s = [0..<Suc i]"
      and m: "Suc (semaphore s) = m" and r: "running s \<subseteq> set (threads s)"
      and s': "s' = s\<lparr>pc := loop_head urls (Suc i), semaphore := semaphore s + 1\<rparr>"
      by (auto simp: dispatch_inv_def)
    show ?thesis
    proof (cases "Suc i < length urls")
      case True
      with t m r s' show ?thesis
        by (simp add: dispatch_inv_def loop_head_def)
    next
      case False
      with i have "length urls = Suc i" by simp
      with t m r s' show ?thesis
        by (simp add: dispatch_inv_def loop_head_def)
    qed
  qed (use a Release in auto)
next
  case (Join j)
  assume "dispatch_inv urls m s" "exec_event delay_of urls ev s = Some s'"
  with Join show ?thesis
    by (cases "pc s") (auto simp: dispatch_inv_def less_Suc_eq split: if_splits)
next
  case Return
  assume "dispatch_inv urls m s" "exec_event delay_of urls ev s = Some s'"
  with Return show ?thesis
    by (cases "pc s") (fastforce simp: dispatch_inv_def split: if_splits)+
next
  case (Finish i)
  assume "dispatch_inv urls m s" "exec_event delay_of urls ev s = Some s'"
  with Finish show ?thesis
    by (cases "pc s") (auto simp: dispatch_inv_def split: if_splits)
qed

lemma dispatch_inv_run:
  "dispatch_inv urls m s \<Longrightarrow> run_events delay_of urls evs s = Some s' \<Longrightarrow> dispatch_inv urls m s'"
  by (induction evs arbitrary: s) (auto split: option.splits dest: dispatch_inv_exec)

lemma dispatch_all_Suc:
  "dispatch_all delay_of urls (Suc i) = dispatch_all delay_of urls i @ iteration delay_of urls i"
  by (simp add: dispatch_all_def)

lemma dispatch_all_prefix:
  "i \<le> n \<Longrightarrow> prefix (dispatch_all delay_of urls i) (dispatch_all delay_of urls n)"
proof (induction n)
  case 0
  then show ?case by simp
next
  case (Suc n)
  show ?case
  proof (cases "i = Suc n")
    case True
    then show ?thesis by simp
  next
    case False
    with Suc.prems have "i \<le> n" by simp
    then have "prefix (dispatch_all delay_of urls i) (dispatch_all delay_of urls n)"
      by (rule Suc.IH)
    then show ?thesis
      by (simp add: dispatch_all_Suc prefix_prefix del: upt_Suc)
  qed
qed

lemma dispatcher_program_split:
  assumes "i < length urls"
  shows "\<exists>rest. dispatcher_program delay_of urls =
           dispatch_all delay_of urls i @ iteration delay_of urls i @ rest"
proof -
  from assms have "Suc i \<le> length urls" by simp
  then have "prefix (dispatch_all delay_of urls (Suc i)) (dispatch_all delay_of urls (length urls))"
    by (rule dispatch_all_prefix)
  then obtain zs where
    "dispatch_all delay_of urls (length urls) = dispatch_all delay_of urls (Suc i) @ zs"
    by (rule prefixE)
  then have "dispatcher_program delay_of urls =
      dispatch_all delay_of urls i @ iteration delay_of urls i
        @ (zs @ map Join [0..<length urls] @ [Return])"
    unfolding dispatcher_program_def dispatch_all_Suc by simp
  then show ?thesis ..
qed

lemma events_before_prefix:
  assumes "dispatch_inv urls m s"
  shows "prefix (events_before delay_of urls (pc s)) (dispatcher_program delay_of urls)"
proof (cases "pc s")
  case (AtAcquire i)
  with assms have "i < length urls" by (simp add: dispatch_inv_def)
  from dispatcher_program_split [OF this] obtain rest where
    "dispatcher_program delay_of urls = dispatch_all delay_of urls i @ iteration delay_of urls i @ rest" ..
  with AtAcquire show ?thesis by simp
next
  case (AtStart i)
  with assms have "i < length urls" by (simp add: dispatch_inv_def)
  from dispatcher_program_split [OF this] obtain rest where
    "dispatcher_program delay_of urls = dispatch_all delay_of urls i @ iteration delay_of urls i @ rest" ..
  with AtStart show ?thesis by (simp add: iteration_def)
next
  case (AtSleep i)
  with assms have "i < length urls" by (simp add: dispatch_inv_def)
  from dispatcher_program_split [OF this] obtain rest where
    "dispatcher_program delay_of urls = dispatch_all delay_of urls i @ iteration delay_of urls i @ rest" ..
  with AtSleep show ?thesis by (simp add: iteration_def)
next
  case (AtRelease i)
  with assms have "i < length urls" by (simp add: dispatch_inv_def)
  from dispatcher_program_split [OF this] obtain rest where
    "dispatcher_program delay_of urls = dispatch_all delay_of urls i @ iteration delay_of urls i @ rest" ..
  with AtRelease show ?thesis by (simp add: iteration_def)
next
  case (Raised i)
  with assms have "i < length urls" by (simp add: dispatch_inv_def)
  from dispatcher_program_split [OF this] obtain rest where
    "dispatcher_program delay_of urls = dispatch_all delay_of urls i @ iteration delay_of urls i @ rest" ..
  with Raised show ?thesis by (simp add: iteration_def)
next
  case (AtJoin k)
  with assms have "k \<le> length urls" by (simp add: dispatch_inv_def)
  then obtain d where d: "length urls = k + d"
    by (auto simp: le_iff_add)
  have "[0..<k + d] = [0..<k] @ [k..<k + d]"
    by (rule upt_add_eq_append) simp
  then have "[0..<length urls] = [0..<k] @ [k..<length urls]"
    by (simp only: d)
  then have "map Join [0..<length urls] = map Join [0..<k] @ map Join [k..<length urls]"
    by (metis map_append)
  then have "dispatcher_program delay_of urls =
      (dispatch_all delay_of urls (length urls) @ map Join [0..<k])
        @ (map Join [k..<length urls] @ [Return])"
    unfolding dispatcher_program_def by simp
  moreover have "events_before delay_of urls (pc s) =
      dispatch_all delay_of urls (length urls) @ map Join [0..<k]"
    using AtJoin by simp
  ultimately show ?thesis
    by (simp only: prefixI)
next
  case Returned
  then show ?thesis by simp
qed

lemma events_before_exec:
  assumes "dispatch_inv urls m s" and "exec_event delay_of urls ev s = Some s'"
  shows "events_before delay_of urls (pc s') =
           events_before delay_of urls (pc s) @ (if is_finish ev then [] else [ev])"
proof (cases ev)
  case Release
  show ?thesis
  proof (cases "pc s")
    case (AtRelease i)
    with assms Release have i: "i < length urls"
      and s': "pc s' = loop_head urls (Suc i)"
      by (auto simp: dispatch_inv_def)
    show ?thesis
    proof (cases "Suc i < length urls")
      case True
      with s' AtRelease Release show ?thesis
        by (simp add: loop_head_def dispatch_all_Suc iteration_def del: upt_Suc)
    next
      case False
      with i have "length urls = Suc i" by simp
      with s' AtRelease Release show ?thesis
        by (simp add: loop_head_def dispatch_all_Suc iteration_def del: upt_Suc)
    qed
  qed (use assms Release in auto)
next
  case Return
  with assms show ?thesis
    by (cases "pc s") (auto simp: dispatch_inv_def dispatcher_program_def split: if_splits)
qed (use assms in \<open>cases "pc s"; auto simp: dispatch_inv_def split: if_splits\<close>)+

lemma dispatcher_events_run:
  "dispatch_inv urls m s \<Longrightarrow> run_events delay_of urls evs s = Some s' \<Longrightarrow>
   events_before delay_of urls (pc s') = events_before delay_of urls (pc s) @ dispatcher_events evs"
proof (induction evs arbitrary: s)
  case Nil
  then show ?case by (simp add: dispatcher_events_def)
next
  case (Cons ev evs)
  from Cons.prems(2) obtain s1 where e: "exec_event delay_of urls ev s = Some s1"
    and r: "run_events delay_of urls evs s1 = Some s'"
    by (auto split: option.splits)
  from Cons.prems(1) e have "dispatch_inv urls m s1" by (rule dispatch_inv_exec)
  from Cons.IH [OF this r] events_before_exec [OF Cons.prems(1) e]
  show ?case by (simp add: dispatcher_events_def)
qed

lemma run_dispatch_all:
  assumes "0 < m" and "\<forall>u \<in> set urls. 0 \<le> delay_of u"
  shows "k \<le> length urls \<Longrightarrow>
         run_events delay_of urls (dispatch_all delay_of urls k) (crawl_websites_start urls m) =
           Some \<lparr>pc = loop_head urls k, semaphore = m, threads = [0..<k], running = {0..<k}\<rparr>"
proof (induction k)
  case 0
  then show ?case by (simp add: dispatch_all_def crawl_websites_start_def)
next
  case (Suc k)
  then have k: "k < length urls" by simp
  with assms(2) have d: "\<not> delay_of (urls ! k) < 0" by (simp add: not_less)
  from Suc k d assms(1) show ?case
    by (simp add: dispatch_all_Suc run_events_append iteration_def loop_head_def
          atLeast0_lessThan_Suc)
qed

text \<open>Evaluation of the model on the example inputs.\<close>

lemmas example_defs =
  example_env_def racing_env_def net_ok_def net_timeout_def ok_response_def new_world_def
  meta_tag_def text_tag_def class_tag_def doc_article_def doc_image_without_content_def
  net_image_404_def world_with_image_def net_redirect_def doc_description_markup_def
  doc_description_def doc_selected_def doc_selected_empty_def select_simple_def
  open_error_long_def

lemmas crawler_defs =
  crawl_page_with_rule_def get_page_content_with_rule_def requests_get_def
  extract_content_def extract_title_def select_body_text_def
  extract_default_body_content_def extract_og_image_def soup_find_def tag_getitem_def
  clean_body_def save_og_image_def save_image_def image_file_nonempty_def save_url_def
  write_data_def and_then_def data_directory_def make_log_directory_def
  log_successful_crawl_def log_failed_url_def apply_title_transform_def str_replace_def
  clean_filename_def invalid_chars_def strip_def isspace_def urljoin_root_def
  NL_def DQUOTE_def BACKSLASH_def

subsection \<open>The claims\<close>

text \<open>
  C1, as the code has it. \<open>crawl_page_with_rule\<close> takes the success branch exactly when
  extraction returned a title and a body that are both non-empty strings; the
  placeholders \<open>No Title\<close> and \<open>No Body\<close> are non-empty strings and count as content.
  When the title or the body is \<open>None\<close> or empty, whatever the other is, the function does
  what \<open>log_failed_url\<close> does and nothing else: no file of \<open>data\<close> is written, no row is
  added to \<open>successes.csv\<close>, and when the log file can be appended to, the address and a
  newline are appended to \<open>fails.txt\<close>. When both are non-empty, \<open>fails.txt\<close> stays as it is,
  and a row for the address is appended to \<open>successes.csv\<close> when the function returns, and
  no row when it ends by an exception. So a row in \<open>successes.csv\<close> is written only for a
  non-empty title and a non-empty body.
\<close>

theorem success_iff_title_and_body:
  assumes "get_page_content_with_rule e u title_search body_class_rule w =
             (Inr (title, body, og_image_url), w1)"
      and "r = crawl_page_with_rule e u log_directory title_search title_replace
                 body_class_rule w"
  shows "(\<not> (truthy title \<and> truthy body) \<longrightarrow>
            r = log_failed_url e u log_directory (w\<lparr>requests_log := requests_log w @ [u]\<rparr>)
            \<and> data_files (snd r) = data_files w
            \<and> successes_csv (snd r) = successes_csv w
            \<and> (can_log e w log_directory ''fails.txt'' \<longrightarrow>
                 fst r = None
                 \<and> fails_txt (snd r) = (fails_txt w)
                      (log_directory := fails_txt w log_directory @ u @ [NL])))
       \<and> (truthy title \<and> truthy body \<longrightarrow>
            fails_txt (snd r) = fails_txt w
            \<and> (fst r = None \<longrightarrow>
                 (\<exists>timestamp. successes_csv (snd r) = (successes_csv w)
                    (log_directory :=
                       successes_csv w log_directory @ [[u, ''200'', timestamp]])))
            \<and> (fst r \<noteq> None \<longrightarrow> successes_csv (snd r) = successes_csv w))
       \<and> (successes_csv (snd r) \<noteq> successes_csv w \<longrightarrow> truthy title \<and> truthy body)"
proof -
  have w1: "w1 = w\<lparr>requests_log := requests_log w @ [u]\<rparr>"
    using assms(1) by (rule get_page_content_snd)
  have failure: "r = log_failed_url e u log_directory w1"
    if "\<not> (truthy title \<and> truthy body)"
    unfolding assms(2) using assms(1) that by (rule crawl_page_failure)
  have a: "\<not> (truthy title \<and> truthy body) \<longrightarrow>
            r = log_failed_url e u log_directory (w\<lparr>requests_log := requests_log w @ [u]\<rparr>)
            \<and> data_files (snd r) = data_files w
            \<and> successes_csv (snd r) = successes_csv w
            \<and> (can_log e w log_directory ''fails.txt'' \<longrightarrow>
                 fst r = None
                 \<and> fails_txt (snd r) = (fails_txt w)
                      (log_directory := fails_txt w log_directory @ u @ [NL]))"
  proof
    assume n: "\<not> (truthy title \<and> truthy body)"
    have c: "can_log e w1 log_directory ''fails.txt'' = can_log e w log_directory ''fails.txt''"
      by (simp add: can_log_def w1)
    from failure [OF n] c
    show "r = log_failed_url e u log_directory (w\<lparr>requests_log := requests_log w @ [u]\<rparr>)
            \<and> data_files (snd r) = data_files w
            \<and> successes_csv (snd r) = successes_csv w
            \<and> (can_log e w log_directory ''fails.txt'' \<longrightarrow>
                 fst r = None
                 \<and> fails_txt (snd r) = (fails_txt w)
                      (log_directory := fails_txt w log_directory @ u @ [NL]))"
      using log_failed_url_fst [of e u log_directory w1]
      by (simp add: log_failed_url_fields log_failed_url_lines) (simp add: w1)
  qed
  have b: "truthy title \<and> truthy body \<longrightarrow>
            fails_txt (snd r) = fails_txt w
            \<and> (fst r = None \<longrightarrow>
                 (\<exists>timestamp. successes_csv (snd r) = (successes_csv w)
                    (log_directory :=
                       successes_csv w log_directory @ [[u, ''200'', timestamp]])))
            \<and> (fst r \<noteq> None \<longrightarrow> successes_csv (snd r) = successes_csv w)"
  proof
    assume "truthy title \<and> truthy body"
    then obtain t b where tb: "title = Some t" "body = Some b" and ne: "t \<noteq> []" "b \<noteq> []"
      by (auto simp: truthy_def split: option.splits list.splits)
    have "get_page_content_with_rule e u title_search body_class_rule w =
            (Inr (Some t, Some b, og_image_url), w1)"
      using assms(1) tb by simp
    from crawl_page_success [OF this ne refl refl, of log_directory title_replace]
    have chain: "r = and_then
       (write_data e
          (clean_filename (strip (apply_title_transform t title_search title_replace)) @ ''.txt'')
          (strip (apply_title_transform t title_search title_replace)
             @ [NL] @ ''---'' @ [NL] @ b @ [NL]) w1)
       (\<lambda>w2. and_then
          (save_url e u
             (clean_filename (strip (apply_title_transform t title_search title_replace))) w2)
          (\<lambda>w3. and_then
             (save_og_image e u og_image_url
                (clean_filename (strip (apply_title_transform t title_search title_replace)))
                w3)
             (\<lambda>w4. log_successful_crawl e u log_directory w4)))"
      unfolding assms(2) .
    from success_branch_fails_txt [OF chain] success_branch_rows [OF chain]
    show "fails_txt (snd r) = fails_txt w
            \<and> (fst r = None \<longrightarrow>
                 (\<exists>timestamp. successes_csv (snd r) = (successes_csv w)
                    (log_directory :=
                       successes_csv w log_directory @ [[u, ''200'', timestamp]])))
            \<and> (fst r \<noteq> None \<longrightarrow> successes_csv (snd r) = successes_csv w)"
      by (auto simp: w1)
  qed
  from a have c: "successes_csv (snd r) \<noteq> successes_csv w \<longrightarrow> truthy title \<and> truthy body"
    by blast
  from a b c show ?thesis
    by blast
qed

text \<open>
  The witness: a fetch that times out returns no title and no body, the log file can be
  appended to, and the address is logged as a failure.
\<close>

theorem success_iff_title_and_body_witness:
  "get_page_content_with_rule (example_env net_timeout []) ''http://a.example/p'' [] []
     new_world = (Inr (None, None, None), new_world\<lparr>requests_log := [''http://a.example/p'']\<rparr>)
   \<and> \<not> (truthy None \<and> truthy None)
   \<and> can_log (example_env net_timeout []) new_world ''results/2024-02-03'' ''fails.txt''
   \<and> fst (crawl_page_with_rule (example_env net_timeout []) ''http://a.example/p''
         ''results/2024-02-03'' [] [] [] new_world) = None
   \<and> fails_txt (snd (crawl_page_with_rule (example_env net_timeout []) ''http://a.example/p''
         ''results/2024-02-03'' [] [] [] new_world)) =
       (fails_txt new_world)
         (''results/2024-02-03'' :=
            fails_txt new_world ''results/2024-02-03'' @ ''http://a.example/p'' @ [NL])
   \<and> data_files (snd (crawl_page_with_rule (example_env net_timeout []) ''http://a.example/p''
         ''results/2024-02-03'' [] [] [] new_world)) = data_files new_world"
proof -
  have h: "get_page_content_with_rule (example_env net_timeout []) ''http://a.example/p'' [] []
     new_world = (Inr (None, None, None), new_world\<lparr>requests_log := [''http://a.example/p'']\<rparr>)"
    by (simp add: get_page_content_with_rule_def requests_get_def example_defs)
  have c: "can_log (example_env net_timeout []) new_world ''results/2024-02-03'' ''fails.txt''"
    by (simp add: can_log_def example_defs)
  have t: "\<not> (truthy None \<and> truthy None)"
    by (simp add: truthy_def)
  note s = success_iff_title_and_body
    [where log_directory = "''results/2024-02-03''" and title_replace = "[]", OF h refl]
  from s c t h show ?thesis
    by blast
qed

text \<open>
  C1, as the claim states it, fails on a page without heading, description and
  paragraph: extraction returns the two placeholders, and the address is logged as a
  success, with the artifact \<open>No Title.txt\<close> written and nothing appended to
  \<open>fails.txt\<close>.
\<close>

theorem placeholders_count_as_success:
  "fst (get_page_content_with_rule (example_env net_ok []) ''http://a.example/p'' [] []
          new_world) = Inr (Some ''No Title'', Some ''No Body'', None)
   \<and> crawl_page_with_rule (example_env net_ok []) ''http://a.example/p''
         ''results/2024-02-03'' [] [] [] new_world =
       (None,
        new_world\<lparr>requests_log := [''http://a.example/p''],
          data_files :=
            [''No Title.txt'' \<mapsto> ''No Title'' @ [NL] @ ''---'' @ [NL] @ ''No Body'' @ [NL],
             ''No Title-url.txt'' \<mapsto> ''http://a.example/p''],
          directories := {''results/2024-02-03''},
          successes_csv := (successes_csv new_world)
            (''results/2024-02-03'' :=
               [[''http://a.example/p'', ''200'', ''2024-02-03 12:00:00'']])\<rparr>)
   \<and> fails_txt new_world ''results/2024-02-03'' = []"
  by (simp add: crawler_defs example_defs)

text \<open>
  C3. \<open>clean_filename\<close> is meant to remove every character that is invalid in a Windows
  filename, the backslash among them. The character class of the source holds an escaped
  slash where the backslash was meant, so a backslash in the title stays in the filename:
  the title \<open>a\b\<close> is returned unchanged.
\<close>

theorem clean_filename_keeps_backslash:
  "clean_filename [CHR ''a'', BACKSLASH, CHR ''b''] = [CHR ''a'', BACKSLASH, CHR ''b'']"
  by (simp add: clean_filename_def invalid_chars_def BACKSLASH_def DQUOTE_def)

text \<open>
  C4. Extraction is meant never to raise. It does raise when the page has an \<open>og:image\<close>
  meta element without a \<open>content\<close> attribute (and likewise for the description
  element): the source guards against the element being absent, not against the
  attribute being absent, and the \<open>KeyError\<close> is not among the exceptions it catches.
  The exception leaves \<open>crawl_page_with_rule\<close> too, and the address is logged neither
  as a success nor as a failure.
\<close>

theorem extraction_raises_key_error:
  "fst (get_page_content_with_rule (example_env net_ok doc_image_without_content)
          ''http://a.example/p'' ''a.example'' [] new_world) = Inl (KeyError ''content'')
   \<and> crawl_page_with_rule (example_env net_ok doc_image_without_content)
          ''http://a.example/p'' ''results/2024-02-03'' [] [] [] new_world
       = (Some (KeyError ''content''), new_world\<lparr>requests_log := [''http://a.example/p'']\<rparr>)"
  by (simp add: crawl_page_with_rule_def get_page_content_with_rule_def requests_get_def
        extract_content_def select_body_text_def extract_default_body_content_def
        extract_og_image_def soup_find_def tag_getitem_def example_env_def net_ok_def
        ok_response_def new_world_def doc_image_without_content_def meta_tag_def)

text \<open>
  C9. For every address that is crawled with success, that is, for which
  \<open>crawl_page_with_rule\<close> adds a row to \<open>successes.csv\<close>: where \<open>t\<close> and \<open>b\<close> are the title
  and the body that extraction returned, the title is \<open>t\<close> after the search-and-replace
  and trimmed, and the filename is the cleaned title, the file \<open><filename>.txt\<close> holds the
  title, a newline, \<open>---\<close>, a newline, the body and a newline, and the file
  \<open><filename>-url.txt\<close> holds the address that was crawled.
\<close>

theorem text_artifact_and_url_sidecar:
  assumes "get_page_content_with_rule e u title_search body_class_rule w =
             (Inr (Some t, Some b, og_image_url), w1)"
      and "r = crawl_page_with_rule e u log_directory title_search title_replace
                 body_class_rule w"
      and "successes_csv (snd r) log_directory \<noteq> successes_csv w log_directory"
      and "title = strip (apply_title_transform t title_search title_replace)"
  shows "data_files (snd r) (clean_filename title @ ''.txt'') =
           Some (title @ [NL] @ ''---'' @ [NL] @ b @ [NL])
       \<and> data_files (snd r) (clean_filename title @ ''-url.txt'') = Some u"
proof -
  have w1: "successes_csv w1 = successes_csv w"
    using get_page_content_snd [OF assms(1)] by simp
  have tb: "truthy (Some t) \<and> truthy (Some b)"
  proof (rule ccontr)
    assume "\<not> (truthy (Some t) \<and> truthy (Some b))"
    with assms(1) have "r = log_failed_url e u log_directory w1"
      unfolding assms(2) by (rule crawl_page_failure)
    then have "successes_csv (snd r) = successes_csv w"
      by (simp add: log_failed_url_fields w1)
    with assms(3) show False by simp
  qed
  then have ne: "t \<noteq> []" "b \<noteq> []"
    by (auto simp: truthy_def split: list.splits)
  from crawl_page_success [OF assms(1) ne assms(4) refl, of log_directory]
  have chain: "r = and_then
       (write_data e (clean_filename title @ ''.txt'')
          (title @ [NL] @ ''---'' @ [NL] @ b @ [NL]) w1)
       (\<lambda>w2. and_then (save_url e u (clean_filename title) w2)
          (\<lambda>w3. and_then (save_og_image e u og_image_url (clean_filename title) w3)
             (\<lambda>w4. log_successful_crawl e u log_directory w4)))"
    unfolding assms(2) .
  have "fst r = None"
  proof (rule ccontr)
    assume "fst r \<noteq> None"
    with success_branch_rows [OF chain] have "successes_csv (snd r) = successes_csv w"
      by (simp add: w1)
    with assms(3) show False by simp
  qed
  with chain show ?thesis
    by (simp add: success_branch_data)
qed

text \<open>
  The witness: the page of the scenario, with a title that the search-and-replace
  changes and a character that the filename loses.
\<close>

theorem text_artifact_and_url_sidecar_witness:
  "get_page_content_with_rule (example_env net_ok doc_article) ''http://a.example/a''
     ''A'' [] new_world =
     (Inr (Some ''Title A'', Some ''Body A'', Some ''/img.png''),
      new_world\<lparr>requests_log := [''http://a.example/a'']\<rparr>)
   \<and> successes_csv (snd (crawl_page_with_rule (example_env net_ok doc_article)
         ''http://a.example/a'' ''results/2024-02-03'' ''A'' '':1 '' [] new_world))
        ''results/2024-02-03'' =
       [[''http://a.example/a'', ''200'', ''2024-02-03 12:00:00'']]
   \<and> successes_csv new_world ''results/2024-02-03'' = []
   \<and> strip (apply_title_transform ''Title A'' ''A'' '':1 '') = ''Title :1''
   \<and> clean_filename ''Title :1'' = ''Title 1''
   \<and> data_files (snd (crawl_page_with_rule (example_env net_ok doc_article)
         ''http://a.example/a'' ''results/2024-02-03'' ''A'' '':1 '' [] new_world))
        (clean_filename ''Title :1'' @ ''.txt'') =
       Some (''Title :1'' @ [NL] @ ''---'' @ [NL] @ ''Body A'' @ [NL])
   \<and> data_files (snd (crawl_page_with_rule (example_env net_ok doc_article)
         ''http://a.example/a'' ''results/2024-02-03'' ''A'' '':1 '' [] new_world))
        (clean_filename ''Title :1'' @ ''-url.txt'') = Some ''http://a.example/a''"
proof -
  have h: "get_page_content_with_rule (example_env net_ok doc_article) ''http://a.example/a''
     ''A'' [] new_world =
     (Inr (Some ''Title A'', Some ''Body A'', Some ''/img.png''),
      new_world\<lparr>requests_log := [''http://a.example/a'']\<rparr>)"
    by (simp add: crawler_defs example_defs)
  have s: "successes_csv (snd (crawl_page_with_rule (example_env net_ok doc_article)
         ''http://a.example/a'' ''results/2024-02-03'' ''A'' '':1 '' [] new_world))
        ''results/2024-02-03'' =
       [[''http://a.example/a'', ''200'', ''2024-02-03 12:00:00'']]"
    by (simp add: crawler_defs example_defs)
  have n: "successes_csv new_world ''results/2024-02-03'' = []"
    by (simp add: new_world_def)
  have t: "strip (apply_title_transform ''Title A'' ''A'' '':1 '') = ''Title :1''"
    by (simp add: crawler_defs)
  have c: "clean_filename ''Title :1'' = ''Title 1''"
    by (simp add: crawler_defs)
  have d: "successes_csv (snd (crawl_page_with_rule (example_env net_ok doc_article)
         ''http://a.example/a'' ''results/2024-02-03'' ''A'' '':1 '' [] new_world))
        ''results/2024-02-03'' \<noteq> successes_csv new_world ''results/2024-02-03''"
    unfolding s n by simp
  note a = text_artifact_and_url_sidecar [OF h refl d t [symmetric]]
  from a h s n t c show ?thesis
    by blast
qed

text \<open>
  C5. A fetch that fails is meant to leave exactly one line with the address in
  \<open>fails.txt\<close>. It does not when the worker loses the race for the log directory:
  \<open>log_failed_url\<close> looks for the directory and creates it in two steps, and
  \<open>os.makedirs\<close> is called without \<open>exist_ok\<close>. When two workers of a crawl fail at about
  the same time and the directory of the day is not there yet, both find it missing, the
  second \<open>os.makedirs\<close> raises \<open>FileExistsError\<close>, the exception leaves
  \<open>crawl_page_with_rule\<close>, and the address of that worker is never appended. The rest of
  the claim holds there: one request, no retry, no file in \<open>data\<close>.
\<close>

theorem racing_worker_loses_failure_line:
  "fetch_fails (racing_env net_timeout []) new_world ''http://b.example/b''
   \<and> crawl_page_with_rule (racing_env net_timeout []) ''http://b.example/b''
         ''results/2024-02-03'' [] [] [] new_world =
       (Some FileExistsError,
        new_world\<lparr>requests_log := [''http://b.example/b''],
                   directories := {''results/2024-02-03''}\<rparr>)
   \<and> fails_txt (new_world\<lparr>requests_log := [''http://b.example/b''],
                   directories := {''results/2024-02-03''}\<rparr>) ''results/2024-02-03'' = []"
  by (simp add: fetch_fails_def crawler_defs example_defs)

text \<open>
  C8, as the code has it. When a non-empty image file is already at
  \<open><filename>.png\<close>, \<open>save_image\<close> sends no request and changes nothing. Otherwise
  it sends exactly one request, to the image address it was given. When the request
  fails or is answered with a status other than 200, no file is written. When it is
  answered with status 200, the image file is opened; if \<open>open\<close> raises, the exception
  leaves \<open>save_image\<close> and nothing is written. Otherwise the bytes are saved as
  \<open><filename>.png\<close>; when the transfer breaks, the chunks that were delivered are in the
  file and there is no sidecar; when it completes, the sidecar \<open><filename>-image.txt\<close> is
  opened, and it holds the image address unless that \<open>open\<close> raises, which leaves the
  image without a sidecar.
\<close>

theorem save_image_outcome:
  "(image_file_nonempty w filename \<longrightarrow> save_image e image_url filename w = (None, w))
   \<and> (\<not> image_file_nonempty w filename \<longrightarrow>
        requests_log (snd (save_image e image_url filename w)) = requests_log w @ [image_url]
        \<and> (fst (save_image e image_url filename w),
            data_files (snd (save_image e image_url filename w))) =
            (case network e (length (requests_log w)) image_url True of
               Inl err \<Rightarrow> (None, data_files w)
             | Inr r \<Rightarrow>
                 if status_code r \<noteq> 200 then (None, data_files w)
                 else
                   (case open_error e data_directory (filename @ ''.png'') of
                      Some x \<Rightarrow> (Some x, data_files w)
                    | None \<Rightarrow>
                        if aborted r
                        then (None, (data_files w)(filename @ ''.png'' \<mapsto> content r))
                        else
                          (case open_error e data_directory (filename @ ''-image.txt'') of
                             Some x \<Rightarrow>
                               (Some x, (data_files w)(filename @ ''.png'' \<mapsto> content r))
                           | None \<Rightarrow>
                               (None, (data_files w)(filename @ ''.png'' \<mapsto> content r,
                                  filename @ ''-image.txt'' \<mapsto> image_url))))))"
  by (auto simp: save_image_def requests_get_def Let_def and_then_def write_data_def
           split: sum.splits option.splits)

text \<open>
  The witness takes both branches: the image that is there is not fetched again, and in
  a new world the image is fetched once and saved with its sidecar.
\<close>

theorem save_image_outcome_witness:
  "image_file_nonempty world_with_image ''Title A''
   \<and> save_image (example_env net_ok doc_article) ''http://a.example/img.png'' ''Title A''
       world_with_image = (None, world_with_image)
   \<and> \<not> image_file_nonempty new_world ''Title A''
   \<and> requests_log (snd (save_image (example_env net_ok doc_article)
        ''http://a.example/img.png'' ''Title A'' new_world)) =
       requests_log new_world @ [''http://a.example/img.png'']
   \<and> fst (save_image (example_env net_ok doc_article) ''http://a.example/img.png''
        ''Title A'' new_world) = None
   \<and> data_files (snd (save_image (example_env net_ok doc_article)
        ''http://a.example/img.png'' ''Title A'' new_world)) =
       [''Title A.png'' \<mapsto> ''<html>'', ''Title A-image.txt'' \<mapsto> ''http://a.example/img.png'']"
proof -
  have h1: "image_file_nonempty world_with_image ''Title A''"
    by (simp add: image_file_nonempty_def example_defs)
  have h2: "\<not> image_file_nonempty new_world ''Title A''"
    by (simp add: image_file_nonempty_def example_defs)
  note a = save_image_outcome [of world_with_image "''Title A''"
      "example_env net_ok doc_article" "''http://a.example/img.png''"]
  note b = save_image_outcome [of new_world "''Title A''"
      "example_env net_ok doc_article" "''http://a.example/img.png''"]
  from a h1 have 1: "save_image (example_env net_ok doc_article) ''http://a.example/img.png''
      ''Title A'' world_with_image = (None, world_with_image)"
    by blast
  from b h2 have 2: "requests_log (snd (save_image (example_env net_ok doc_article)
        ''http://a.example/img.png'' ''Title A'' new_world)) =
       requests_log new_world @ [''http://a.example/img.png'']"
    by blast
  have 3: "fst (save_image (example_env net_ok doc_article) ''http://a.example/img.png''
        ''Title A'' new_world) = None"
    and 4: "data_files (snd (save_image (example_env net_ok doc_article)
        ''http://a.example/img.png'' ''Title A'' new_world)) =
       [''Title A.png'' \<mapsto> ''<html>'', ''Title A-image.txt'' \<mapsto> ''http://a.example/img.png'']"
    by (simp_all add: save_image_def image_file_nonempty_def requests_get_def and_then_def
          write_data_def data_directory_def example_defs)
  from h1 h2 1 2 3 4 show ?thesis
    by blast
qed

text \<open>
  C8, as the claim states it, fails when the image cannot be fetched: with no image file
  there and the image address answering 404, the request is sent, and neither the image
  nor the sidecar \<open><filename>-image.txt\<close> is written.
\<close>

theorem missing_image_leaves_no_sidecar:
  "\<not> image_file_nonempty new_world ''Title A''
   \<and> save_image (example_env net_image_404 doc_article) ''http://a.example/img.png''
       ''Title A'' new_world =
       (None, new_world\<lparr>requests_log := [''http://a.example/img.png'']\<rparr>)
   \<and> data_files (new_world\<lparr>requests_log := [''http://a.example/img.png'']\<rparr>)
       ''Title A-image.txt'' = None
   \<and> data_files (new_world\<lparr>requests_log := [''http://a.example/img.png'']\<rparr>)
       ''Title A.png'' = None"
  by (simp add: save_image_def image_file_nonempty_def requests_get_def example_defs)

text \<open>
  C10. The result of \<open>get_page_content_with_rule\<close>, and the world it leaves, do not
  depend on its second argument, the hostname: two calls that differ only there return
  the same. So \<open>crawl_page_with_rule\<close>, which passes \<open>title_search\<close> in that position,
  extracts what it would extract with the hostname there.
\<close>

theorem hostname_argument_unused:
  "get_page_content_with_rule e u hostname body_class_rule w =
   get_page_content_with_rule e u hostname' body_class_rule w"
  by (simp add: get_page_content_with_rule_def)

theorem hostname_argument_unused_witness:
  "get_page_content_with_rule (example_env net_ok []) ''http://a.example/p''
     ''title-search'' [] new_world =
   get_page_content_with_rule (example_env net_ok []) ''http://a.example/p''
     ''a.example'' [] new_world"
  by (rule hostname_argument_unused)

text \<open>
  C7, as the code has it. For a page that is crawled up to the image (title and body
  are not empty, and the text file and the address file can be written), the image
  address that extraction returns is the \<open>content\<close> attribute of the first \<open>og:image\<close>
  meta element, as it stands, and \<open>None\<close> when there is no such element. When it is a
  non-empty string, \<open>crawl_page_with_rule\<close> resolves it with \<open>urljoin\<close> against the
  address that was requested. When \<open>urljoin\<close> raises, the exception leaves the function
  and no image is requested. When it returns, the image request goes to the resolved
  address, unless the image file is already there; and when that request is answered
  with status 200, the transfer completes and both files can be written, the image is
  saved and \<open><filename>-image.txt\<close> holds the resolved address. In every other case no
  image is requested. The address the response came from is not read.
\<close>

theorem image_resolved_against_requested_address:
  assumes "network e (length (requests_log w)) u False = Inr r"
      and "get_page_content_with_rule e u title_search body_class_rule w =
             (Inr (Some t, Some b, og_image_url), w1)"
      and "t \<noteq> []" and "b \<noteq> []"
      and "filename = clean_filename (strip (apply_title_transform t title_search title_replace))"
      and "can_write e (filename @ ''.txt'')" and "can_write e (filename @ ''-url.txt'')"
      and "res = crawl_page_with_rule e u log_directory title_search title_replace
                   body_class_rule w"
  shows "og_image_url =
           (case html_parser e (content r) of
              Inl x \<Rightarrow> None
            | Inr soup \<Rightarrow>
                (case soup_find soup ''meta'' [(''property'', ''og:image'')] of
                   Some og_image_tag \<Rightarrow> attrs og_image_tag ''content''
                 | None \<Rightarrow> None))
       \<and> (case og_image_url of
            Some (c # cs) \<Rightarrow>
              (case urljoin e u (c # cs) of
                 Inl x \<Rightarrow> fst res = Some x \<and> requests_log (snd res) = requests_log w @ [u]
               | Inr image_url \<Rightarrow>
                   requests_log (snd res) =
                     requests_log w @ [u] @
                       (if image_file_nonempty w filename then [] else [image_url])
                   \<and> (\<forall>r'. \<not> image_file_nonempty w filename
                          \<and> network e (Suc (length (requests_log w))) image_url True = Inr r'
                          \<and> status_code r' = 200 \<and> \<not> aborted r'
                          \<and> can_write e (filename @ ''.png'')
                          \<and> can_write e (filename @ ''-image.txt'') \<longrightarrow>
                        data_files (snd res) (filename @ ''.png'') = Some (content r')
                        \<and> data_files (snd res) (filename @ ''-image.txt'') = Some image_url))
          | _ \<Rightarrow> requests_log (snd res) = requests_log w @ [u])"
proof
  from assms(1,2)
  show "og_image_url =
           (case html_parser e (content r) of
              Inl x \<Rightarrow> None
            | Inr soup \<Rightarrow>
                (case soup_find soup ''meta'' [(''property'', ''og:image'')] of
                   Some og_image_tag \<Rightarrow> attrs og_image_tag ''content''
                 | None \<Rightarrow> None))"
    by (auto simp: get_page_content_with_rule_def requests_get_def extract_content_def
          extract_og_image_def tag_getitem_def Let_def
          split: sum.splits if_splits option.splits)
next
  have w1: "w1 = w\<lparr>requests_log := requests_log w @ [u]\<rparr>"
    using assms(2) by (rule get_page_content_snd)
  define title where "title = strip (apply_title_transform t title_search title_replace)"
  define w3 where "w3 = w1\<lparr>data_files := (data_files w1)
      (filename @ ''.txt'' \<mapsto> title @ [NL] @ ''---'' @ [NL] @ b @ [NL],
       filename @ ''-url.txt'' \<mapsto> u)\<rparr>"
  have fn: "filename = clean_filename title"
    by (simp add: assms(5) title_def)
  from crawl_page_success [OF assms(2-4) title_def fn, of log_directory]
  have chain: "res = and_then
       (write_data e (filename @ ''.txt'') (title @ [NL] @ ''---'' @ [NL] @ b @ [NL]) w1)
       (\<lambda>w2. and_then (save_url e u filename w2)
          (\<lambda>w3. and_then (save_og_image e u og_image_url filename w3)
             (\<lambda>w4. log_successful_crawl e u log_directory w4)))"
    unfolding assms(8) .
  note img = success_branch_image [OF chain assms(6,7) w3_def]
  have rl: "requests_log w3 = requests_log w @ [u]"
    by (simp add: w3_def w1)
  have nonempty: "image_file_nonempty w3 filename = image_file_nonempty w filename"
    by (simp add: image_file_nonempty_def w3_def w1)
  have other: "data_files (snd (save_image e i filename w3)) =
      (data_files w3)(filename @ ''.png'' \<mapsto> content r', filename @ ''-image.txt'' \<mapsto> i)"
    if "\<not> image_file_nonempty w filename"
      and "network e (Suc (length (requests_log w))) i True = Inr r'"
      and "status_code r' = 200" and "\<not> aborted r'"
      and "can_write e (filename @ ''.png'')" and "can_write e (filename @ ''-image.txt'')"
    for i r'
    by (rule save_image_complete) (use that in \<open>simp_all add: nonempty rl\<close>)
  show "case og_image_url of
            Some (c # cs) \<Rightarrow>
              (case urljoin e u (c # cs) of
                 Inl x \<Rightarrow> fst res = Some x \<and> requests_log (snd res) = requests_log w @ [u]
               | Inr image_url \<Rightarrow>
                   requests_log (snd res) =
                     requests_log w @ [u] @
                       (if image_file_nonempty w filename then [] else [image_url])
                   \<and> (\<forall>r'. \<not> image_file_nonempty w filename
                          \<and> network e (Suc (length (requests_log w))) image_url True = Inr r'
                          \<and> status_code r' = 200 \<and> \<not> aborted r'
                          \<and> can_write e (filename @ ''.png'')
                          \<and> can_write e (filename @ ''-image.txt'') \<longrightarrow>
                        data_files (snd res) (filename @ ''.png'') = Some (content r')
                        \<and> data_files (snd res) (filename @ ''-image.txt'') = Some image_url))
          | _ \<Rightarrow> requests_log (snd res) = requests_log w @ [u]"
  proof (cases og_image_url)
    case None
    then show ?thesis
      by (simp add: img(1) save_og_image_requests rl)
  next
    case (Some ref)
    show ?thesis
    proof (cases ref)
      case Nil
      with Some show ?thesis
        by (simp add: img(1) save_og_image_requests rl)
    next
      case (Cons c cs)
      show ?thesis
      proof (cases "urljoin e u (c # cs)")
        case (Inl x)
        have "fst (save_og_image e u og_image_url filename w3) = Some x"
          by (simp add: save_og_image_def Some Cons Inl)
        then have "fst res = Some x"
          by (rule img(3))
        with Some Cons Inl show ?thesis
          by (simp add: img(1) save_og_image_requests rl)
      next
        case (Inr image_url)
        have s: "save_og_image e u og_image_url filename w3 = save_image e image_url filename w3"
          by (simp add: save_og_image_def Some Cons Inr)
        have "requests_log (snd res) =
            requests_log w @ [u] @ (if image_file_nonempty w filename then [] else [image_url])"
          by (simp add: img(1) s save_image_requests rl nonempty)
        moreover have "\<forall>r'. \<not> image_file_nonempty w filename
              \<and> network e (Suc (length (requests_log w))) image_url True = Inr r'
              \<and> status_code r' = 200 \<and> \<not> aborted r'
              \<and> can_write e (filename @ ''.png'')
              \<and> can_write e (filename @ ''-image.txt'') \<longrightarrow>
            data_files (snd res) (filename @ ''.png'') = Some (content r')
            \<and> data_files (snd res) (filename @ ''-image.txt'') = Some image_url"
        proof (intro allI impI)
          fix r'
          assume "\<not> image_file_nonempty w filename
              \<and> network e (Suc (length (requests_log w))) image_url True = Inr r'
              \<and> status_code r' = 200 \<and> \<not> aborted r'
              \<and> can_write e (filename @ ''.png'')
              \<and> can_write e (filename @ ''-image.txt'')"
          with other [of image_url r']
          show "data_files (snd res) (filename @ ''.png'') = Some (content r')
            \<and> data_files (snd res) (filename @ ''-image.txt'') = Some image_url"
            by (simp add: img(2) s)
        qed
        ultimately show ?thesis
          unfolding Some Cons by (simp only: option.case list.case Inr sum.case)
      qed
    qed
  qed
qed

text \<open>
  C7, as the claim states it, fails for a page that is reached through a redirect: the
  request for \<open>http://a.example/a\<close> is answered from \<open>http://b.example/a\<close>, the page names
  the image \<open>/img.png\<close>, and the image is fetched from, and recorded as,
  \<open>http://a.example/img.png\<close>, while resolving against the address the response came
  from gives \<open>http://b.example/img.png\<close>.
\<close>

theorem image_not_resolved_against_response_address:
  "network (example_env net_redirect doc_article) 0 ''http://a.example/a'' False =
     Inr (ok_response ''http://b.example/a'' ''<html>'')
   \<and> requests_log (snd (crawl_page_with_rule (example_env net_redirect doc_article)
         ''http://a.example/a'' ''results/2024-02-03'' [] [] [] new_world)) =
       [''http://a.example/a'', ''http://a.example/img.png'']
   \<and> data_files (snd (crawl_page_with_rule (example_env net_redirect doc_article)
         ''http://a.example/a'' ''results/2024-02-03'' [] [] [] new_world))
        ''Title A-image.txt'' = Some ''http://a.example/img.png''
   \<and> urljoin (example_env net_redirect doc_article) ''http://b.example/a'' ''/img.png'' =
       Inr ''http://b.example/img.png''"
  by (simp add: crawler_defs example_defs)

theorem image_resolved_against_requested_address_witness:
  "network (example_env net_redirect doc_article) (length (requests_log new_world))
     ''http://a.example/a'' False = Inr (ok_response ''http://b.example/a'' ''<html>'')
   \<and> get_page_content_with_rule (example_env net_redirect doc_article) ''http://a.example/a''
       [] [] new_world =
       (Inr (Some ''Title A'', Some ''Body A'', Some ''/img.png''),
        new_world\<lparr>requests_log := [''http://a.example/a'']\<rparr>)
   \<and> clean_filename (strip (apply_title_transform ''Title A'' [] [])) = ''Title A''
   \<and> can_write (example_env net_redirect doc_article) (''Title A'' @ ''.txt'')
   \<and> can_write (example_env net_redirect doc_article) (''Title A'' @ ''-url.txt'')
   \<and> urljoin (example_env net_redirect doc_article) ''http://a.example/a'' ''/img.png'' =
       Inr ''http://a.example/img.png''
   \<and> \<not> image_file_nonempty new_world ''Title A''
   \<and> requests_log (snd (crawl_page_with_rule (example_env net_redirect doc_article)
         ''http://a.example/a'' ''results/2024-02-03'' [] [] [] new_world)) =
       requests_log new_world @ [''http://a.example/a''] @ [''http://a.example/img.png'']"
proof -
  have n: "network (example_env net_redirect doc_article) (length (requests_log new_world))
     ''http://a.example/a'' False = Inr (ok_response ''http://b.example/a'' ''<html>'')"
    by (simp add: example_defs)
  have h: "get_page_content_with_rule (example_env net_redirect doc_article)
       ''http://a.example/a'' [] [] new_world =
       (Inr (Some ''Title A'', Some ''Body A'', Some ''/img.png''),
        new_world\<lparr>requests_log := [''http://a.example/a'']\<rparr>)"
    by (simp add: crawler_defs example_defs)
  have f: "clean_filename (strip (apply_title_transform ''Title A'' [] [])) = ''Title A''"
    by (simp add: crawler_defs)
  have c1: "can_write (example_env net_redirect doc_article) (''Title A'' @ ''.txt'')"
    and c2: "can_write (example_env net_redirect doc_article) (''Title A'' @ ''-url.txt'')"
    by (simp_all add: can_write_def example_defs)
  have j: "urljoin (example_env net_redirect doc_article) ''http://a.example/a'' ''/img.png'' =
       Inr ''http://a.example/img.png''"
    by (simp add: example_env_def urljoin_root_def)
  have i: "\<not> image_file_nonempty new_world ''Title A''"
    by (simp add: image_file_nonempty_def example_defs)
  note a = image_resolved_against_requested_address
    [where log_directory = "''results/2024-02-03''" and title_replace = "[]",
     OF n h _ _ f [symmetric] c1 c2 refl]
  have "requests_log (snd (crawl_page_with_rule (example_env net_redirect doc_article)
         ''http://a.example/a'' ''results/2024-02-03'' [] [] [] new_world)) =
       requests_log new_world @ [''http://a.example/a''] @ [''http://a.example/img.png'']"
    using a i by (simp add: j)
  with n h f c1 c2 j i show ?thesis
    by blast
qed




text \<open>
  C2. In every execution of \<open>crawl_websites\<close>, whatever the workers do and whenever
  they end, the events of the dispatch loop are a beginning of its program: for each
  address the acquire, the start of the thread, the sleep and the release, in this order,
  and only then the acquire for the next address; then the joins; then the return. So the
  release follows the sleep and comes before the next address is dispatched, and it does
  not wait for the worker: whenever the loop is about to acquire, the semaphore is back at
  \<open>max_threads\<close>. The loop returns only when no thread is running and a thread has been
  started for every address. And the number of workers that run at once can exceed
  \<open>max_threads\<close>: when there are more addresses than that (and the semaphore lets
  anything through, and no delay is negative), some execution reaches a state with more
  than \<open>max_threads\<close> running workers.
\<close>

theorem dispatch_loop_order:
  "(\<forall>evs s. run_events delay_of urls evs (crawl_websites_start urls max_threads) = Some s \<longrightarrow>
       prefix (dispatcher_events evs) (dispatcher_program delay_of urls)
       \<and> ((\<exists>i. pc s = AtAcquire i) \<longrightarrow> semaphore s = max_threads)
       \<and> (pc s = Returned \<longrightarrow> running s = {} \<and> threads s = [0..<length urls]))
   \<and> (0 < max_threads \<and> (\<forall>u \<in> set urls. 0 \<le> delay_of u) \<and> max_threads < length urls \<longrightarrow>
       (\<exists>evs s. run_events delay_of urls evs (crawl_websites_start urls max_threads) = Some s
          \<and> dispatcher_events evs = evs
          \<and> semaphore s = max_threads
          \<and> max_threads < card (running s)))"
proof (intro conjI allI impI)
  fix evs s
  assume r: "run_events delay_of urls evs (crawl_websites_start urls max_threads) = Some s"
  have i0: "dispatch_inv urls max_threads (crawl_websites_start urls max_threads)"
    by (rule dispatch_inv_start)
  then have i: "dispatch_inv urls max_threads s"
    using r by (rule dispatch_inv_run)
  have "events_before delay_of urls (pc (crawl_websites_start urls max_threads)) = []"
    by (simp add: crawl_websites_start_def loop_head_def dispatch_all_def)
  with dispatcher_events_run [OF i0 r]
  have "dispatcher_events evs = events_before delay_of urls (pc s)"
    by simp
  with events_before_prefix [OF i]
  show "prefix (dispatcher_events evs) (dispatcher_program delay_of urls)"
    by simp
  show "\<exists>i. pc s = AtAcquire i \<Longrightarrow> semaphore s = max_threads"
    using i by (auto simp: dispatch_inv_def)
  show "pc s = Returned \<Longrightarrow> running s = {}"
    using i by (simp add: dispatch_inv_def)
  show "pc s = Returned \<Longrightarrow> threads s = [0..<length urls]"
    using i by (simp add: dispatch_inv_def)
next
  assume a: "0 < max_threads \<and> (\<forall>u \<in> set urls. 0 \<le> delay_of u) \<and> max_threads < length urls"
  let ?evs = "dispatch_all delay_of urls (length urls)"
  let ?s = "\<lparr>pc = loop_head urls (length urls), semaphore = max_threads,
             threads = [0..<length urls], running = {0..<length urls}\<rparr>"
  from a have "run_events delay_of urls ?evs (crawl_websites_start urls max_threads) = Some ?s"
    using run_dispatch_all [of max_threads urls delay_of "length urls"] by simp
  moreover have "dispatcher_events ?evs = ?evs"
    by (simp add: dispatcher_events_def dispatch_all_def iteration_def)
  moreover from a have "max_threads < card (running ?s)"
    by simp
  ultimately show "\<exists>evs s.
      run_events delay_of urls evs (crawl_websites_start urls max_threads) = Some s
      \<and> dispatcher_events evs = evs \<and> semaphore s = max_threads
      \<and> max_threads < card (running s)"
    by (intro exI [of _ ?evs] exI [of _ ?s]) simp
qed

text \<open>
  The witness: two addresses and \<open>max_threads = 1\<close>. The execution \<open>example_run\<close> ends
  with the loop returned and no thread running, and its dispatcher events are a beginning
  of the program; and an execution with two running workers exists.
\<close>

theorem dispatch_loop_order_witness:
  "run_events no_delay two_urls example_run (crawl_websites_start two_urls 1) =
     Some \<lparr>pc = Returned, semaphore = 1, threads = [0, 1], running = {}\<rparr>
   \<and> prefix (dispatcher_events example_run) (dispatcher_program no_delay two_urls)
   \<and> 0 < (1::nat)
   \<and> 0 \<le> no_delay ''http://a.example/a'' \<and> 0 \<le> no_delay ''http://b.example/b''
   \<and> 1 < length two_urls
   \<and> (\<exists>evs s. run_events no_delay two_urls evs (crawl_websites_start two_urls 1) = Some s
          \<and> dispatcher_events evs = evs
          \<and> semaphore s = 1
          \<and> 1 < card (running s))"
proof -
  have r: "run_events no_delay two_urls example_run (crawl_websites_start two_urls 1) =
     Some \<lparr>pc = Returned, semaphore = 1, threads = [0, 1], running = {}\<rparr>"
    by (simp add: example_run_def crawl_websites_start_def loop_head_def two_urls_def
          no_delay_def)
  have h: "0 < (1::nat) \<and> (\<forall>u \<in> set two_urls. 0 \<le> no_delay u) \<and> 1 < length two_urls"
    by (simp add: two_urls_def no_delay_def)
  note t = dispatch_loop_order [of no_delay two_urls 1]
  from t [THEN conjunct1, rule_format, OF r]
  have p: "prefix (dispatcher_events example_run) (dispatcher_program no_delay two_urls)"
    by simp
  from t [THEN conjunct2, rule_format, OF h]
  have e: "\<exists>evs s. run_events no_delay two_urls evs (crawl_websites_start two_urls 1) = Some s
          \<and> dispatcher_events evs = evs
          \<and> semaphore s = 1
          \<and> 1 < card (running s)" .
  have d: "0 \<le> no_delay ''http://a.example/a'' \<and> 0 \<le> no_delay ''http://b.example/b''"
    by (simp add: no_delay_def)
  from r h p e d show ?thesis
    by blast
qed

end
